theory Spec2Isabelle
  imports Main "HOL-Library.Word"
begin

unbundle bit_operations_syntax

section \<open>Failure modes of the C code\<close>

text \<open>
  Every way in which the C code can leave its defined behaviour is a value of \<open>error\<close>:
  an access outside the bounds of an array or allocation, a signed multiplication whose
  result does not fit an \<open>int\<close>, a dereferenced null or unmapped pointer, an
  \<open>snprintf\<close> whose argument string lies in the buffer it writes, and the fatal
  \<open>BUG_MSG\<close> abort with its diagnostic code.
\<close>

datatype error = OutOfBounds | SignedOverflow | NullDeref | Segfault | Overlap | BUG nat

abbreviation NUL :: char where
  "NUL \<equiv> CHR 0x00"

section \<open>The table of file descriptor types\<close>

definition MIN_FDTABLE_SZ :: int where
  "MIN_FDTABLE_SZ = 128"

definition INT_MAX :: int where
  "INT_MAX = 2 ^ 31 - 1"

definition STDIN_FILENO :: int where "STDIN_FILENO = 0"
definition STDOUT_FILENO :: int where "STDOUT_FILENO = 1"
definition STDERR_FILENO :: int where "STDERR_FILENO = 2"

text \<open>
  The two static variables \<open>fdtable_sz\<close> and \<open>fdtable\<close>. The list is the memory the
  pointer \<open>fdtable\<close> refers to, so its length is the size of that allocation, which the
  code tracks separately in \<open>fdtable_sz\<close>.
\<close>

record fdstate =
  fdtable_sz :: int
  fdtable :: "char list"

definition init_fdstate :: fdstate where
  "init_fdstate =
     \<lparr>fdtable_sz = MIN_FDTABLE_SZ, fdtable = replicate (nat MIN_FDTABLE_SZ) NUL\<rparr>"

text \<open>
  \<open>memcpy(dst + off, src, n)\<close> on the contents of two allocations: the first \<open>n\<close>
  bytes of \<open>src\<close> replace the bytes \<open>off ..< off + n\<close> of \<open>dst\<close>.
\<close>

definition memcpy :: "'a list \<Rightarrow> nat \<Rightarrow> 'a list \<Rightarrow> nat \<Rightarrow> error + 'a list" where
  "memcpy dst off src n =
     (if n \<le> length src \<and> off + n \<le> length dst
      then Inr (take off dst @ take n src @ drop (off + n) dst)
      else Inl OutOfBounds)"

text \<open>
  \<open>__maybe_grow_fdtable\<close>. The flag \<open>malloc_ok\<close> says whether \<open>libc.malloc\<close> returns
  memory if this call reaches it. The result is the returned \<open>int\<close> and the new state.
  The product \<open>fd * 2\<close> of two \<open>int\<close>s is undefined when it exceeds \<open>INT_MAX\<close>, and
  so is a \<open>memcpy\<close> of a negative \<open>fdtable_sz\<close> bytes. Freeing the old table changes
  no value and is not shown.
\<close>

definition maybe_grow_fdtable :: "bool \<Rightarrow> int \<Rightarrow> fdstate \<Rightarrow> error + (int \<times> fdstate)" where
  "maybe_grow_fdtable malloc_ok fd s =
     (if fd > fdtable_sz s then
        if \<not> fd < MIN_FDTABLE_SZ * 2 \<and> fd * 2 > INT_MAX then Inl SignedOverflow
        else
          let newsz = (if fd < MIN_FDTABLE_SZ * 2 then MIN_FDTABLE_SZ * 2 else fd * 2) in
          if \<not> malloc_ok then Inr (- 1, s)
          else
            let zeroed = replicate (nat newsz) NUL in
            (case (if fdtable_sz s \<noteq> 0
                   then (if fdtable_sz s < 0 then Inl OutOfBounds
                         else memcpy zeroed 0 (fdtable s) (nat (fdtable_sz s)))
                   else Inr zeroed) of
               Inl e \<Rightarrow> Inl e
             | Inr newtable \<Rightarrow> Inr (0, \<lparr>fdtable_sz = newsz, fdtable = newtable\<rparr>))
      else Inr (0, s))"

text \<open>\<open>get_fdtype\<close>: the returned character and the new state.\<close>

definition get_fdtype :: "bool \<Rightarrow> int \<Rightarrow> fdstate \<Rightarrow> error + (char \<times> fdstate)" where
  "get_fdtype malloc_ok fd s =
     (if fd < 0 then Inr (NUL, s)
      else
        case maybe_grow_fdtable malloc_ok fd s of
          Inl e \<Rightarrow> Inl e
        | Inr (r, s1) \<Rightarrow>
            if r < 0 then Inr (NUL, s1)
            else if \<not> nat fd < length (fdtable s1) then Inl OutOfBounds
            else
              let c = fdtable s1 ! nat fd in
              if c = NUL \<and> (fd = STDIN_FILENO \<or> fd = STDOUT_FILENO \<or> fd = STDERR_FILENO)
              then Inr (CHR ''f'', s1\<lparr>fdtable := (fdtable s1)[nat fd := CHR ''f'']\<rparr>)
              else Inr (c, s1))"

text \<open>\<open>set_fdtype\<close>.\<close>

definition set_fdtype :: "bool \<Rightarrow> int \<Rightarrow> char \<Rightarrow> fdstate \<Rightarrow> error + fdstate" where
  "set_fdtype malloc_ok fd type s =
     (if fd < 0 then Inr s
      else
        case maybe_grow_fdtable malloc_ok fd s of
          Inl e \<Rightarrow> Inl e
        | Inr (r, s1) \<Rightarrow>
            if r < 0 then Inr s1
            else if \<not> nat fd < length (fdtable s1) then Inl OutOfBounds
            else Inr (s1\<lparr>fdtable := (fdtable s1)[nat fd := type]\<rparr>))"

text \<open>
  The locked section shared by \<open>handle_closefd\<close> and \<open>handle_closefptr\<close>:
  \<open>if (fd < fdtable_sz) fdtable[fd] = 0;\<close>
\<close>

definition clear_fdtype :: "int \<Rightarrow> fdstate \<Rightarrow> error + fdstate" where
  "clear_fdtype fd s =
     (if fd < fdtable_sz s then
        if 0 \<le> fd \<and> nat fd < length (fdtable s)
        then Inr (s\<lparr>fdtable := (fdtable s)[nat fd := NUL]\<rparr>)
        else Inl OutOfBounds
      else Inr s)"

text \<open>The table is well formed when the recorded size is the size of the allocation.\<close>

definition wf_fdstate :: "fdstate \<Rightarrow> bool" where
  "wf_fdstate s \<longleftrightarrow> length (fdtable s) = nat (fdtable_sz s) \<and> MIN_FDTABLE_SZ \<le> fdtable_sz s"

section \<open>The cache of symbol names\<close>

type_synonym u8 = "8 word"
type_synonym u32 = "32 word"

text \<open>
  A C string is the list of its characters; the end of the list is its terminating NUL,
  and the loops below also stop at a NUL inside the list, as the C loops would.
\<close>

text \<open>\<open>local_strcmp\<close> of \<open>wrap_lib.c\<close>.\<close>

fun local_strcmp :: "string \<Rightarrow> string \<Rightarrow> int" where
  "local_strcmp [] [] = 0"
| "local_strcmp [] (b # bs) = (if b = NUL then 0 else 0 - of_char b)"
| "local_strcmp (a # as) [] = (if a = NUL then 0 else of_char a - 0)"
| "local_strcmp (a # as) (b # bs) =
     (if a = b then (if a = NUL then 0 else local_strcmp as bs)
      else of_char a - of_char b)"

text \<open>The loop of \<open>wrap_hash\<close>, on the accumulator \<open>v\<close>, and \<open>wrap_hash\<close> itself.\<close>

fun wrap_hash_loop :: "u8 \<Rightarrow> string \<Rightarrow> u8" where
  "wrap_hash_loop v [] = v"
| "wrap_hash_loop v (c # cs) =
     (if c = NUL then v else wrap_hash_loop (push_bit 1 v XOR of_char c) cs)"

definition wrap_hash :: "string \<Rightarrow> u8" where
  "wrap_hash symname = (let v = wrap_hash_loop 0 symname in if v \<noteq> 0 then v else 0x1)"

text \<open>The handler functions a cache entry can point to.\<close>

datatype handler_func =
  Handle_exit | Handle_thread_exit | Handle_exec | Handle_fork | Handle_pthread
  | Handle_signal | Handle_sigaction | Handle_dup | Handle_open | Handle_openat
  | Handle_fopen | Handle_socket | Handle_pipe | Handle_accept | Handle_closefd
  | Handle_closefptr | Handle_rename_fd1

definition WRAP_CACHE_SZ :: nat where
  "WRAP_CACHE_SZ = 256"

text \<open>
  \<open>struct wrap_cache_entry\<close>. A pointer to an entry is an address: the addresses below
  \<open>WRAP_CACHE_SZ\<close> are the slots of the static array \<open>s_wrap_cache\<close>, the ones from
  there on are the overflow entries in the order \<open>libc.malloc\<close> returned them. \<open>None\<close>
  is the null pointer.
\<close>

record wrap_cache_entry =
  next_entry :: "nat option"
  name :: "string option"
  handler :: "handler_func option"
  wrapsym :: u8
  modsym :: u8

type_synonym wrap_cache = "wrap_cache_entry list"

text \<open>An entry after \<open>memset(.., 0, ..)\<close>.\<close>

definition zero_entry :: wrap_cache_entry where
  "zero_entry = \<lparr>next_entry = None, name = None, handler = None, wrapsym = 0, modsym = 0\<rparr>"

definition init_wrap_cache :: wrap_cache where
  "init_wrap_cache = replicate WRAP_CACHE_SZ zero_entry"

text \<open>
  The loop \<open>while (entry->next) entry = entry->next;\<close> of \<open>add_entry\<close>. On a cyclic
  chain it does not return: the value is \<open>None\<close>.
\<close>

partial_function (option) chain_end :: "wrap_cache \<Rightarrow> nat \<Rightarrow> (error + nat) option" where
  "chain_end c entry =
     (if \<not> entry < length c then Some (Inl Segfault)
      else
        case next_entry (c ! entry) of
          None \<Rightarrow> Some (Inr entry)
        | Some n \<Rightarrow> chain_end c n)"

text \<open>The four assignments that end \<open>add_entry\<close>.\<close>

definition fill_entry ::
  "nat \<Rightarrow> string \<Rightarrow> handler_func option \<Rightarrow> int \<Rightarrow> int \<Rightarrow> wrap_cache \<Rightarrow> wrap_cache" where
  "fill_entry entry symname h ws ms c =
     c[entry := (c ! entry)\<lparr>name := Some symname, handler := h,
                               wrapsym := of_int ws, modsym := of_int ms\<rparr>]"

definition add_entry ::
  "bool \<Rightarrow> string \<Rightarrow> handler_func option \<Rightarrow> int \<Rightarrow> int \<Rightarrow> wrap_cache
     \<Rightarrow> (error + wrap_cache) option" where
  "add_entry malloc_ok symname h ws ms c =
     (let hidx = wrap_hash symname; entry = unat hidx in
      if \<not> entry < length c then Some (Inl OutOfBounds)
      else if name (c ! entry) \<noteq> None then
        if \<not> malloc_ok then Some (Inr c)
        else
          let e = length c; c1 = c @ [zero_entry] in
          (case chain_end c1 entry of
             None \<Rightarrow> None
           | Some (Inl err) \<Rightarrow> Some (Inl err)
           | Some (Inr last_e) \<Rightarrow>
               Some (Inr (fill_entry e symname h ws ms
                           (c1[last_e := (c1 ! last_e)\<lparr>next_entry := Some e\<rparr>]))))
      else Some (Inr (fill_entry entry symname h ws ms c)))"

text \<open>
  The fields of \<open>struct log_info\<close> that the two files use: the symbol name, the four
  saved argument registers, the three flags, and the cached lookup. The pointer
  \<open>symbol\<close> is the string it points to (\<open>None\<close> when it is null), together with the
  flag \<open>symbol_in_symmod\<close> that says whether it points to the buffer \<open>symmod\<close> of the
  calling thread's return slot, where \<open>handle_rename_fd1\<close> leaves it.
\<close>

record log_info =
  symbol :: "string option"
  symbol_in_symmod :: bool
  regs0 :: u32
  regs1 :: u32
  regs2 :: u32
  regs3 :: u32
  should_handle :: bool
  should_mod_sym :: bool
  should_log :: bool
  symcache :: "nat option"
  symhash :: u8

text \<open>
  The \<open>do ... while (next)\<close> loop of \<open>get_cached_sym\<close>, from the entry it is at. The
  result is the value of \<open>entry\<close> when the loop ends.
\<close>

partial_function (option) find_entry ::
  "wrap_cache \<Rightarrow> string \<Rightarrow> nat \<Rightarrow> (error + nat option) option" where
  "find_entry c s entry =
     (if \<not> entry < length c then Some (Inl Segfault)
      else
        case name (c ! entry) of
          None \<Rightarrow> Some (Inl NullDeref)
        | Some nm \<Rightarrow>
            if local_strcmp s nm = 0 then Some (Inr (Some entry))
            else
              (case next_entry (c ! entry) of
                 None \<Rightarrow> Some (Inr None)
               | Some n \<Rightarrow> find_entry c s n))"

text \<open>\<open>get_cached_sym\<close>: the returned pointer and the updated \<open>info\<close>.\<close>

definition get_cached_sym ::
  "wrap_cache \<Rightarrow> log_info \<Rightarrow> (error + (nat option \<times> log_info)) option" where
  "get_cached_sym c info =
     (if symcache info \<noteq> None then Some (Inr (symcache info, info))
      else
        case (if symhash info = 0
              then (case symbol info of
                      None \<Rightarrow> Inl NullDeref
                    | Some s \<Rightarrow> Inr (info\<lparr>symhash := wrap_hash s\<rparr>))
              else Inr info) of
          Inl err \<Rightarrow> Some (Inl err)
        | Inr info1 \<Rightarrow>
            let entry = unat (symhash info1) in
            if \<not> entry < length c then Some (Inl OutOfBounds)
            else if name (c ! entry) = None then Some (Inr (None, info1))
            else
              (case symbol info1 of
                 None \<Rightarrow> Some (Inl NullDeref)
               | Some s \<Rightarrow>
                   (case find_entry c s entry of
                      None \<Rightarrow> None
                    | Some (Inl err) \<Rightarrow> Some (Inl err)
                    | Some (Inr found) \<Rightarrow>
                        Some (Inr (found, info1\<lparr>symcache := found\<rparr>)))))"

text \<open>
  The registrations of \<open>setup_wrap_cache\<close>, in its order: name, handler, \<open>wrapsym\<close>,
  \<open>modsym\<close>.
\<close>

definition wrapped_symbols :: "(string \<times> handler_func \<times> int \<times> int) list" where
  "wrapped_symbols =
     [(''__fork'', Handle_fork, 1, 0),
      (''__bionic_clone'', Handle_fork, 1, 0),
      (''__sys_clone'', Handle_fork, 1, 0),
      (''__pthread_clone'', Handle_pthread, 1, 0),
      (''_exit'', Handle_exit, 1, 0),
      (''_exit_thread'', Handle_thread_exit, 1, 0),
      (''_exit_with_stack_teardown'', Handle_thread_exit, 1, 0),
      (''bsd_signal'', Handle_signal, 1, 0),
      (''clone'', Handle_fork, 1, 0),
      (''daemon'', Handle_fork, 1, 0),
      (''exit'', Handle_exit, 1, 0),
      (''exec'', Handle_exec, 1, 0),
      (''execl'', Handle_exec, 1, 0),
      (''execle'', Handle_exec, 1, 0),
      (''execlp'', Handle_exec, 1, 0),
      (''execve'', Handle_exec, 1, 0),
      (''execvp'', Handle_exec, 1, 0),
      (''fork'', Handle_fork, 1, 0),
      (''pthread_create'', Handle_pthread, 1, 0),
      (''pthread_exit'', Handle_thread_exit, 1, 0),
      (''sig_action'', Handle_sigaction, 1, 0),
      (''signal'', Handle_signal, 1, 0),
      (''system'', Handle_fork, 1, 0),
      (''sysv_signal'', Handle_signal, 1, 0),
      (''vfork'', Handle_fork, 1, 0),
      (''__open'', Handle_open, 1, 0),
      (''__openat'', Handle_openat, 1, 0),
      (''__sclose'', Handle_closefptr, 1, 0),
      (''accept'', Handle_accept, 1, 0),
      (''close'', Handle_closefd, 1, 0),
      (''dup'', Handle_dup, 1, 0),
      (''dup2'', Handle_dup, 1, 0),
      (''fclose'', Handle_closefptr, 1, 0),
      (''fopen'', Handle_fopen, 1, 0),
      (''freopen'', Handle_fopen, 1, 0),
      (''open'', Handle_open, 1, 0),
      (''openat'', Handle_openat, 1, 0),
      (''pclose'', Handle_closefptr, 1, 0),
      (''pipe'', Handle_pipe, 1, 0),
      (''pipe2'', Handle_pipe, 1, 0),
      (''popen'', Handle_pipe, 1, 0),
      (''socket'', Handle_socket, 1, 0),
      (''socketpair'', Handle_socket, 1, 0),
      (''read'', Handle_rename_fd1, 0, 1),
      (''readv'', Handle_rename_fd1, 0, 1),
      (''pread'', Handle_rename_fd1, 0, 1),
      (''pread64'', Handle_rename_fd1, 0, 1),
      (''write'', Handle_rename_fd1, 0, 1),
      (''writev'', Handle_rename_fd1, 0, 1),
      (''pwrite'', Handle_rename_fd1, 0, 1),
      (''pwrite64'', Handle_rename_fd1, 0, 1),
      (''ioctl'', Handle_rename_fd1, 0, 1),
      (''__ioctl'', Handle_rename_fd1, 0, 1),
      (''fcntl'', Handle_rename_fd1, 0, 1),
      (''__fcntl'', Handle_rename_fd1, 0, 1),
      (''__fcntl64'', Handle_rename_fd1, 0, 1)]"

text \<open>A run of \<open>add_entry\<close> calls, each of whose allocations succeeds or not as \<open>malloc_ok\<close> says.\<close>

fun add_entries ::
  "bool \<Rightarrow> (string \<times> handler_func \<times> int \<times> int) list \<Rightarrow> wrap_cache
     \<Rightarrow> (error + wrap_cache) option" where
  "add_entries malloc_ok [] c = Some (Inr c)"
| "add_entries malloc_ok ((symname, h, ws, ms) # rest) c =
     (case add_entry malloc_ok symname (Some h) ws ms c of
        None \<Rightarrow> None
      | Some (Inl err) \<Rightarrow> Some (Inl err)
      | Some (Inr c1) \<Rightarrow> add_entries malloc_ok rest c1)"

text \<open>
  \<open>setup_wrap_cache\<close>, on the flag \<open>libc.wrap_cache\<close> and the cache: nothing happens when
  the flag is set; otherwise the flag is set, the array is zeroed and the symbols are
  registered.
\<close>

definition setup_wrap_cache ::
  "bool \<Rightarrow> bool \<times> wrap_cache \<Rightarrow> (error + (bool \<times> wrap_cache)) option" where
  "setup_wrap_cache malloc_ok st =
     (if fst st then Some (Inr st)
      else
        case add_entries malloc_ok wrapped_symbols
               (replicate WRAP_CACHE_SZ zero_entry @ drop WRAP_CACHE_SZ (snd st)) of
          None \<Rightarrow> None
        | Some (Inl err) \<Rightarrow> Some (Inl err)
        | Some (Inr c) \<Rightarrow> Some (Inr (True, c)))"

section \<open>Calling the real function\<close>

text \<open>Sequencing of steps that can fail.\<close>

definition ebind :: "error + 'a \<Rightarrow> ('a \<Rightarrow> error + 'b) \<Rightarrow> error + 'b" where
  "ebind m f = (case m of Inl e \<Rightarrow> Inl e | Inr x \<Rightarrow> f x)"

text \<open>
  \<open>struct ret_ctx\<close>, the slot of the return-value channel: \<open>sym\<close>, \<open>_errno\<close>,
  \<open>u.u32[0]\<close> and the string in the buffer \<open>symmod\<close>. An \<open>int\<close> and a \<open>uint32_t\<close>
  are both a 32-bit word; \<open>sint\<close> reads the word as the \<open>int\<close>.
\<close>

record ret_ctx =
  ret_sym :: "string option"
  ret_errno :: u32
  u32_0 :: u32
  symmod :: string

text \<open>What the handlers do that is visible outside them, in order.\<close>

datatype event = Real_call "u32 list" | Bt_printf | Bt_flush | Libc_close_log

text \<open>
  The state the handlers work on: the table of descriptor types, the calling thread's
  \<open>errno\<close>, the slot \<open>get_retmem(NULL)\<close> returns for the calling thread (\<open>None\<close> when it
  returns \<open>NULL\<close>), \<open>libc.forking\<close>, and the events so far. \<open>get_retmem\<close> is declared in
  \<open>wrap_tls.h\<close>; it is taken to return the slot and to change nothing.
\<close>

record world =
  fdt :: fdstate
  errno :: u32
  retmem :: "ret_ctx option"
  forking :: u32
  events :: "event list"

text \<open>
  What lies outside the two files during one call of a handler: the value the real
  function returns and the \<open>errno\<close> it leaves; the \<open>errno\<close> left by what runs after the
  error code was captured; whether the first and the second growth of the table get
  memory; the C string and the \<open>int\<close> at an address of the application's memory (\<open>None\<close>
  where nothing is mapped); \<open>libc.fno\<close>, \<open>libc.getpid\<close>; and \<open>local_strncmp\<close>, which the
  file only declares.
\<close>

record extern =
  real_rval :: u32
  real_errno :: u32
  later_errno :: u32
  malloc_a :: bool
  malloc_b :: bool
  cstring_at :: "u32 \<Rightarrow> string option"
  int_at :: "u32 \<Rightarrow> int option"
  fno :: "u32 \<Rightarrow> int"
  getpid :: u32
  local_strncmp :: "string \<Rightarrow> string \<Rightarrow> nat \<Rightarrow> int"

text \<open>
  The macro \<open>safe_call(INFO, ERR, CODE)\<close>, where \<open>CODE\<close> calls the real function on
  \<open>args\<close>: the value the call returned, the captured \<open>ERR\<close>, and the state after
  \<open>__set_wrapping\<close> and \<open>__get_libc\<close>.
\<close>

definition safe_call :: "extern \<Rightarrow> u32 list \<Rightarrow> world \<Rightarrow> u32 \<times> u32 \<times> world" where
  "safe_call ext args w =
     (let w1 = w\<lparr>events := events w @ [Real_call args], errno := real_errno ext\<rparr>;
          err = errno w1;
          w2 = w1\<lparr>errno := later_errno ext\<rparr>
      in (real_rval ext, err, w2))"

text \<open>
  The end of every handler that called the real function:
  \<open>ret = get_retmem(NULL); ret->sym = info->symbol; ret->_errno = err;
  ret->u.u32[0] = rval; return 1;\<close>
\<close>

definition publish_result :: "log_info \<Rightarrow> u32 \<Rightarrow> u32 \<Rightarrow> world \<Rightarrow> error + (int \<times> world)" where
  "publish_result info err rval w =
     (case retmem w of
        None \<Rightarrow> Inl NullDeref
      | Some ret \<Rightarrow>
          Inr (1, w\<lparr>retmem := Some (ret\<lparr>ret_sym := symbol info, ret_errno := err,
                                         u32_0 := rval\<rparr>)\<rparr>))"

text \<open>\<open>if (info->should_log) bt_printf(...)\<close>\<close>

definition bt_log :: "log_info \<Rightarrow> world \<Rightarrow> world" where
  "bt_log info w = (if should_log info then w\<lparr>events := events w @ [Bt_printf]\<rparr> else w)"

text \<open>\<open>set_fdtype\<close> on the table of a \<open>world\<close>.\<close>

definition set_fdtype_w :: "bool \<Rightarrow> int \<Rightarrow> char \<Rightarrow> world \<Rightarrow> error + world" where
  "set_fdtype_w malloc_ok fd type w =
     ebind (set_fdtype malloc_ok fd type (fdt w)) (\<lambda>f. Inr (w\<lparr>fdt := f\<rparr>))"

text \<open>\<open>wrapped_return\<close>: the returned value and the state, or the abort of \<open>BUG_MSG\<close>.\<close>

definition wrapped_return :: "world \<Rightarrow> error + (u32 \<times> world)" where
  "wrapped_return w =
     (case retmem w of
        None \<Rightarrow> Inl (BUG 0x4311)
      | Some ret \<Rightarrow>
          let err = ret_errno ret; rval = u32_0 ret in
          Inr (rval, w\<lparr>errno := err\<rparr>))"

text \<open>\<open>flush_and_close\<close>\<close>

definition flush_and_close :: "log_info \<Rightarrow> world \<Rightarrow> world" where
  "flush_and_close info w =
     w\<lparr>events := events w @ (if should_log info then [Bt_printf, Bt_flush] else [])
                   @ [Libc_close_log]\<rparr>"

section \<open>The handlers of the descriptor calls\<close>

text \<open>\<open>__get_path_type\<close>, on the pointer \<open>path\<close>.\<close>

definition get_path_type :: "extern \<Rightarrow> u32 \<Rightarrow> error + char" where
  "get_path_type ext path =
     (if path = 0 then Inr NUL
      else
        case cstring_at ext path of
          None \<Rightarrow> Inl Segfault
        | Some p \<Rightarrow>
            Inr (if local_strncmp ext ''/dev/'' p 5 = 0 then CHR ''D''
                 else if local_strncmp ext ''/proc/'' p 6 = 0 then CHR ''K''
                 else if local_strncmp ext ''/sys/'' p 5 = 0 then CHR ''k''
                 else CHR ''F''))"

definition handle_open :: "extern \<Rightarrow> log_info \<Rightarrow> world \<Rightarrow> error + (int \<times> world)" where
  "handle_open ext info w =
     (if \<not> should_handle info then Inr (0, w)
      else
        let path = regs0 info;
            (rval, err, w1) = safe_call ext [path, regs1 info, regs2 info, regs3 info] w
        in
        ebind (if 0 \<le> sint rval
               then ebind (get_path_type ext path) (\<lambda>type.
                    ebind (set_fdtype_w (malloc_a ext) (sint rval) type w1) (\<lambda>w2.
                    Inr (bt_log info w2)))
               else Inr w1)
          (\<lambda>w3. publish_result info err rval w3))"

definition handle_openat :: "extern \<Rightarrow> log_info \<Rightarrow> world \<Rightarrow> error + (int \<times> world)" where
  "handle_openat ext info w =
     (if \<not> should_handle info then Inr (0, w)
      else
        let path = regs1 info;
            (rval, err, w1) = safe_call ext [regs0 info, path, regs2 info] w
        in
        ebind (if 0 \<le> sint rval
               then ebind (get_path_type ext path) (\<lambda>type.
                    ebind (set_fdtype_w (malloc_a ext) (sint rval) type w1) (\<lambda>w2.
                    Inr (bt_log info w2)))
               else Inr w1)
          (\<lambda>w3. publish_result info err rval w3))"

definition handle_fopen :: "extern \<Rightarrow> log_info \<Rightarrow> world \<Rightarrow> error + (int \<times> world)" where
  "handle_fopen ext info w =
     (if \<not> should_handle info then Inr (0, w)
      else
        let path = regs0 info;
            mode = regs1 info;
            (rval, err, w1) = safe_call ext [path, mode, regs2 info] w
        in
        ebind (if rval \<noteq> 0
               then ebind (get_path_type ext path) (\<lambda>type.
                    let fd = fno ext rval in
                    ebind (set_fdtype_w (malloc_a ext) fd type w1) (\<lambda>w2.
                    Inr (bt_log info w2)))
               else Inr w1)
          (\<lambda>w3. publish_result info err rval w3))"

definition handle_dup :: "extern \<Rightarrow> log_info \<Rightarrow> world \<Rightarrow> error + (int \<times> world)" where
  "handle_dup ext info w =
     (if \<not> should_handle info then Inr (0, w)
      else
        let oldfd = sint (regs0 info) in
        if oldfd < 0 then Inr (0, w)
        else
          ebind (get_fdtype (malloc_a ext) oldfd (fdt w)) (\<lambda>(type, f).
            let (rval, err, w1) = safe_call ext [regs0 info, regs1 info] (w\<lparr>fdt := f\<rparr>) in
            ebind (if 0 \<le> sint rval
                   then ebind (set_fdtype_w (malloc_b ext) (sint rval) type w1) (\<lambda>w2.
                        Inr (bt_log info w2))
                   else Inr w1)
              (\<lambda>w3. publish_result info err rval w3)))"

definition handle_socket :: "extern \<Rightarrow> log_info \<Rightarrow> world \<Rightarrow> error + (int \<times> world)" where
  "handle_socket ext info w =
     (if \<not> should_handle info then Inr (0, w)
      else
        let (rval, err, w1) = safe_call ext [regs0 info, regs1 info, regs2 info, regs3 info] w
        in
        ebind (if 0 \<le> sint rval
               then ebind (set_fdtype_w (malloc_a ext) (sint rval) (CHR ''S'') w1) (\<lambda>w2.
                    Inr (bt_log info w2))
               else Inr w1)
          (\<lambda>w3. publish_result info err rval w3))"

text \<open>\<open>s[i]\<close> for a pointer \<open>s\<close> to a C string.\<close>

definition char_at :: "string option \<Rightarrow> nat \<Rightarrow> error + char" where
  "char_at s i =
     (case s of
        None \<Rightarrow> Inl NullDeref
      | Some cs \<Rightarrow>
          if i < length cs then Inr (cs ! i)
          else if i = length cs then Inr NUL
          else Inl OutOfBounds)"

text \<open>\<open>p[i]\<close> for a pointer \<open>p\<close> to \<open>int\<close>s in the application's memory.\<close>

definition read_int :: "extern \<Rightarrow> u32 \<Rightarrow> nat \<Rightarrow> error + int" where
  "read_int ext p i =
     (case int_at ext (p + 4 * of_nat i) of None \<Rightarrow> Inl Segfault | Some v \<Rightarrow> Inr v)"

definition handle_pipe :: "extern \<Rightarrow> log_info \<Rightarrow> world \<Rightarrow> error + (int \<times> world)" where
  "handle_pipe ext info w =
     (if \<not> should_handle info then Inr (0, w)
      else
        ebind (char_at (symbol info) 1) (\<lambda>c1.
        if c1 = CHR ''i'' then
          let pfd = regs0 info;
              (rval, err, w1) = safe_call ext [pfd, regs1 info] w
          in
          ebind (if rval = 0 \<and> pfd \<noteq> 0
                 then ebind (read_int ext pfd 0) (\<lambda>fd0.
                      ebind (set_fdtype_w (malloc_a ext) fd0 (CHR ''P'') w1) (\<lambda>w2.
                      ebind (read_int ext pfd 1) (\<lambda>fd1.
                      ebind (set_fdtype_w (malloc_b ext) fd1 (CHR ''P'') w2) (\<lambda>w3.
                      Inr (bt_log info w3)))))
                 else Inr w1)
            (\<lambda>w4. publish_result info err rval w4)
        else if c1 = CHR ''o'' then
          let w0 = (flush_and_close info w)\<lparr>forking := getpid ext\<rparr>;
              (f, err, w1) = safe_call ext [regs0 info, regs1 info] w0
          in
          ebind (if f \<noteq> 0
                 then let fd = fno ext f in
                      ebind (set_fdtype_w (malloc_a ext) fd (CHR ''p'') w1) (\<lambda>w2.
                      Inr (bt_log info w2))
                 else Inr w1)
            (\<lambda>w3. let rval = f in publish_result info err rval w3)
        else Inr (0, w)))"

definition handle_accept :: "extern \<Rightarrow> log_info \<Rightarrow> world \<Rightarrow> error + (int \<times> world)" where
  "handle_accept ext info w =
     (if \<not> should_handle info then Inr (0, w)
      else
        let (rval, err, w1) = safe_call ext [regs0 info, regs1 info, regs2 info] w
        in
        ebind (if 0 \<le> sint rval
               then ebind (set_fdtype_w (malloc_a ext) (sint rval) (CHR ''S'') w1) (\<lambda>w2.
                    Inr (bt_log info w2))
               else Inr w1)
          (\<lambda>w3. publish_result info err rval w3))"

definition handle_closefd :: "log_info \<Rightarrow> world \<Rightarrow> error + (int \<times> world)" where
  "handle_closefd info w =
     (if \<not> should_handle info then Inr (0, w)
      else
        let fd = sint (regs0 info) in
        ebind (clear_fdtype fd (fdt w)) (\<lambda>f. Inr (0, w\<lparr>fdt := f\<rparr>)))"

definition handle_closefptr :: "extern \<Rightarrow> log_info \<Rightarrow> world \<Rightarrow> error + (int \<times> world)" where
  "handle_closefptr ext info w =
     (if \<not> should_handle info then Inr (0, w)
      else
        let f = regs0 info;
            fd = fno ext f
        in
        ebind (clear_fdtype fd (fdt w)) (\<lambda>f. Inr (0, w\<lparr>fdt := f\<rparr>)))"

text \<open>
  \<open>snprintf(buf, sz, "%s_%c", s, c)\<close> for a character \<open>c\<close> other than NUL: the string
  left in \<open>buf\<close>, which is the buffer's old string when the size is 0.
\<close>

definition snprintf_s_c :: "string \<Rightarrow> nat \<Rightarrow> string \<Rightarrow> char \<Rightarrow> string" where
  "snprintf_s_c buf sz s c =
     (if sz = 0 then buf
      else take (sz - 1) (takeWhile (\<lambda>x. x \<noteq> NUL) s @ ''_'' @ [c]))"

text \<open>
  \<open>handle_rename_fd1\<close>, for a value \<open>max_symbol_len\<close> of the macro \<open>MAX_SYMBOL_LEN\<close>. When
  \<open>info->symbol\<close> already points to \<open>ret->symmod\<close>, the \<open>snprintf\<close> reads the buffer it
  writes, which is undefined. Afterwards \<open>info->symbol\<close> points to \<open>ret->symmod\<close>.
\<close>

definition handle_rename_fd1 ::
  "nat \<Rightarrow> extern \<Rightarrow> log_info \<Rightarrow> world \<Rightarrow> error + (int \<times> log_info \<times> world)" where
  "handle_rename_fd1 max_symbol_len ext info w =
     (if \<not> should_mod_sym info then Inr (0, info, w)
      else
        let fd = sint (regs0 info) in
        ebind (get_fdtype (malloc_a ext) fd (fdt w)) (\<lambda>(type, f).
          case retmem w of
            None \<Rightarrow> Inl NullDeref
          | Some ret \<Rightarrow>
              (case symbol info of
                 None \<Rightarrow> Inl NullDeref
               | Some s \<Rightarrow>
                   if symbol_in_symmod info then Inl Overlap
                   else
                     let ret1 = ret\<lparr>symmod := snprintf_s_c (symmod ret) max_symbol_len s
                                                 (if type \<noteq> NUL then type else CHR ''?'')\<rparr>
                     in Inr (0, info\<lparr>symbol := Some (symmod ret1), symbol_in_symmod := True\<rparr>,
                             w\<lparr>fdt := f, retmem := Some ret1\<rparr>))))"

section \<open>The handlers of the signal calls\<close>

definition MAX_SIGNALS :: int where
  "MAX_SIGNALS = 32"

text \<open>
  The values of \<open>SIG_DFL\<close>, \<open>SIG_IGN\<close> and \<open>SIG_ERR\<close> of \<open>signal.h\<close>, and the address of
  \<open>wrapped_sighandler\<close>.
\<close>

record sig_consts =
  SIG_DFL :: u32
  SIG_IGN :: u32
  SIG_ERR :: u32
  wrapped_sighandler :: u32

text \<open>
  The array \<open>s_sighandler\<close> of handler addresses (0 is the null pointer), the field
  \<open>sa_sigaction\<close> of the \<open>struct sigaction\<close> at an address of the application's memory
  (\<open>None\<close> where nothing is mapped), and the number of records \<open>install_sighandler\<close>
  has logged.
\<close>

record sig_world =
  s_sighandler :: "u32 list"
  sa_sigaction_at :: "u32 \<Rightarrow> u32 option"
  sig_logged :: nat

definition init_sig_world :: "(u32 \<Rightarrow> u32 option) \<Rightarrow> sig_world" where
  "init_sig_world mem =
     \<lparr>s_sighandler = replicate (nat MAX_SIGNALS) 0, sa_sigaction_at = mem, sig_logged = 0\<rparr>"

definition install_sighandler :: "log_info \<Rightarrow> int \<Rightarrow> u32 \<Rightarrow> sig_world \<Rightarrow> error + (int \<times> sig_world)" where
  "install_sighandler info sig orig sw =
     (if sig \<ge> MAX_SIGNALS then Inr (1, sw)
      else
        let sw1 = (if should_log info then sw\<lparr>sig_logged := sig_logged sw + 1\<rparr> else sw) in
        if 0 \<le> sig \<and> nat sig < length (s_sighandler sw1)
        then Inr (0, sw1\<lparr>s_sighandler := (s_sighandler sw1)[nat sig := orig]\<rparr>)
        else Inl OutOfBounds)"

definition handle_signal ::
  "sig_consts \<Rightarrow> log_info \<Rightarrow> sig_world \<Rightarrow> error + (int \<times> log_info \<times> sig_world)" where
  "handle_signal k info sw =
     (if \<not> should_handle info then Inr (0, info, sw)
      else
        let sh = regs1 info in
        if sh = 0 \<or> sh = SIG_IGN k \<or> sh = SIG_DFL k \<or> sh = SIG_ERR k then Inr (0, info, sw)
        else
          ebind (install_sighandler info (sint (regs0 info)) sh sw) (\<lambda>(r, sw1).
            Inr (0, if r = 0 then info\<lparr>regs1 := wrapped_sighandler k\<rparr> else info, sw1)))"

definition handle_sigaction ::
  "sig_consts \<Rightarrow> log_info \<Rightarrow> sig_world \<Rightarrow> error + (int \<times> log_info \<times> sig_world)" where
  "handle_sigaction k info sw =
     (if \<not> should_handle info then Inr (0, info, sw)
      else
        let sa = regs1 info in
        if sa = 0 then Inr (0, info, sw)
        else
          case sa_sigaction_at sw sa of
            None \<Rightarrow> Inl Segfault
          | Some sh \<Rightarrow>
              if sh = 0 \<or> sh = SIG_IGN k \<or> sh = SIG_DFL k \<or> sh = SIG_ERR k
              then Inr (0, info, sw)
              else
                ebind (install_sighandler info (sint (regs0 info)) sh sw) (\<lambda>(r, sw1).
                  Inr (0, info,
                       if r = 0
                       then sw1\<lparr>sa_sigaction_at :=
                                  (sa_sigaction_at sw1)(sa \<mapsto> wrapped_sighandler k)\<rparr>
                       else sw1)))"

section \<open>The preload value of an exec\<close>

text \<open>
  The strings of the build's macros \<open>LIB_PATH\<close>, \<open>_str(_IBNAM_)\<close> and \<open>_str(LIBNAME)\<close>.
\<close>

record lib_names =
  LIB_PATH :: string
  IBNAM :: string
  LIBNAME :: string

text \<open>The string literal \<open>LIB_PATH "/" _str(_IBNAM_) ":" LIB_PATH "/" _str(LIBNAME)\<close>.\<close>

definition ld_preload_str :: "lib_names \<Rightarrow> string" where
  "ld_preload_str nm = LIB_PATH nm @ ''/'' @ IBNAM nm @ '':'' @ LIB_PATH nm @ ''/'' @ LIBNAME nm"

text \<open>
  The loop \<open>while (*p) p++;\<close> over the bytes from \<open>old_val\<close> to the end of their
  allocation: the number of bytes before the first NUL.
\<close>

fun scan_to_nul :: "char list \<Rightarrow> error + nat" where
  "scan_to_nul [] = Inl OutOfBounds"
| "scan_to_nul (c # cs) =
     (if c = NUL then Inr 0 else ebind (scan_to_nul cs) (\<lambda>n. Inr (Suc n)))"

text \<open>\<open>p[i] = c\<close>\<close>

definition store_byte :: "char list \<Rightarrow> nat \<Rightarrow> char \<Rightarrow> error + char list" where
  "store_byte p i c = (if i < length p then Inr (p[i := c]) else Inl OutOfBounds)"

text \<open>
  \<open>wrap_ld_preload\<close>. A pointer to characters is the list of the bytes from it to the end
  of its allocation, or \<open>None\<close> when it is null; \<open>malloc n\<close> is the content of the block
  \<open>libc.malloc(n)\<close> returns, or \<open>None\<close>. Sizes are natural numbers: the two strings and
  the new block lie in one 32-bit address space.
\<close>

definition wrap_ld_preload ::
  "lib_names \<Rightarrow> (nat \<Rightarrow> char list option) \<Rightarrow> char list option \<Rightarrow> error + char list option" where
  "wrap_ld_preload nm malloc old_val =
     (let ld_preload = ld_preload_str nm @ [NUL];
          ldp_sz = length (ld_preload_str nm @ [NUL])
      in
      case old_val of
        None \<Rightarrow> Inr (Some (''LD_PRELOAD='' @ ld_preload_str nm @ [NUL]))
      | Some old \<Rightarrow>
          ebind (scan_to_nul old) (\<lambda>old_sz.
            case malloc (old_sz + ldp_sz + 1) of
              None \<Rightarrow> Inr None
            | Some p \<Rightarrow>
                ebind (memcpy p 0 old old_sz) (\<lambda>p1.
                ebind (store_byte p1 old_sz (CHR '':'')) (\<lambda>p2.
                ebind (memcpy p2 (old_sz + 1) ld_preload ldp_sz) (\<lambda>p3.
                Inr (Some p3))))))"

text \<open>The C string a sequence of bytes starts with.\<close>

definition c_string :: "char list \<Rightarrow> string" where
  "c_string bytes = takeWhile (\<lambda>x. x \<noteq> NUL) bytes"

section \<open>Runs of table operations\<close>

text \<open>
  The three operations on the table: \<open>get_fdtype\<close>, \<open>set_fdtype\<close>, and the clearing of
  an entry by the close handlers. Each comes with the flag of its allocation.
\<close>

datatype fdop = Get_fdtype int | Set_fdtype int char | Clear_fdtype int

fun fdop_fd :: "fdop \<Rightarrow> int" where
  "fdop_fd (Get_fdtype fd) = fd"
| "fdop_fd (Set_fdtype fd c) = fd"
| "fdop_fd (Clear_fdtype fd) = fd"

text \<open>An operation that sets or clears the entry of \<open>fd\<close>.\<close>

fun resets :: "int \<Rightarrow> fdop \<Rightarrow> bool" where
  "resets fd (Get_fdtype g) = False"
| "resets fd (Set_fdtype g c) = (g = fd)"
| "resets fd (Clear_fdtype g) = (g = fd)"

fun apply_fdop :: "bool \<times> fdop \<Rightarrow> fdstate \<Rightarrow> error + fdstate" where
  "apply_fdop (ok, Get_fdtype fd) s = ebind (get_fdtype ok fd s) (\<lambda>(c, t). Inr t)"
| "apply_fdop (ok, Set_fdtype fd c) s = set_fdtype ok fd c s"
| "apply_fdop (ok, Clear_fdtype fd) s = clear_fdtype fd s"

fun apply_fdops :: "(bool \<times> fdop) list \<Rightarrow> fdstate \<Rightarrow> error + fdstate" where
  "apply_fdops [] s = Inr s"
| "apply_fdops (x # xs) s = ebind (apply_fdop x s) (apply_fdops xs)"

text \<open>The size \<open>newsz\<close> that \<open>__maybe_grow_fdtable\<close> computes, and the table it builds.\<close>

definition newsz_of :: "int \<Rightarrow> int" where
  "newsz_of fd = (if fd < MIN_FDTABLE_SZ * 2 then MIN_FDTABLE_SZ * 2 else fd * 2)"

definition grown :: "int \<Rightarrow> fdstate \<Rightarrow> fdstate" where
  "grown fd s =
     \<lparr>fdtable_sz = newsz_of fd,
      fdtable = fdtable s @ replicate (nat (newsz_of fd) - nat (fdtable_sz s)) NUL\<rparr>"

text \<open>
  An access of \<open>get_fdtype\<close> or \<open>set_fdtype\<close> to \<open>fd\<close> at capacity \<open>cap\<close> stays within
  defined behaviour: \<open>fd\<close> is negative (nothing is accessed), or it is not the index
  \<open>cap\<close> one past the table and, when the table has to grow for it, \<open>fd * 2\<close> fits an
  \<open>int\<close>. The capacity after the access is \<open>capacity_after\<close>.
\<close>

definition access_defined :: "int \<Rightarrow> int \<Rightarrow> bool" where
  "access_defined fd cap \<longleftrightarrow> fd < 0 \<or> (fd \<noteq> cap \<and> (fd < cap \<or> fd * 2 \<le> INT_MAX))"

definition capacity_after :: "bool \<Rightarrow> int \<Rightarrow> int \<Rightarrow> int" where
  "capacity_after malloc_ok fd cap = (if cap < fd \<and> malloc_ok then newsz_of fd else cap)"

text \<open>
  The same for an operation of a run, where a close stays within defined behaviour when
  its descriptor is not negative, and for a whole run from a capacity on.
\<close>

fun op_defined :: "fdop \<Rightarrow> int \<Rightarrow> bool" where
  "op_defined (Get_fdtype g) cap = access_defined g cap"
| "op_defined (Set_fdtype g c) cap = access_defined g cap"
| "op_defined (Clear_fdtype g) cap = (0 \<le> g)"

fun op_capacity :: "bool \<times> fdop \<Rightarrow> int \<Rightarrow> int" where
  "op_capacity (ok, Get_fdtype g) cap = capacity_after ok g cap"
| "op_capacity (ok, Set_fdtype g c) cap = capacity_after ok g cap"
| "op_capacity (ok, Clear_fdtype g) cap = cap"

fun run_defined :: "(bool \<times> fdop) list \<Rightarrow> int \<Rightarrow> bool" where
  "run_defined [] cap = True"
| "run_defined (x # xs) cap = (op_defined (snd x) cap \<and> run_defined xs (op_capacity x cap))"

section \<open>Call contexts and the initial state\<close>

text \<open>
  The context \<open>wrap_special\<close> hands to a handler (\<open>should_handle = 1\<close>,
  \<open>should_mod_sym = 0\<close>) and the one \<open>wrap_symbol_mod\<close> hands to it
  (\<open>should_mod_sym = 1\<close>, \<open>should_handle = 0\<close>), for a symbol that is not in the
  return slot and four registers.
\<close>

definition special_info :: "string \<Rightarrow> u32 \<Rightarrow> u32 \<Rightarrow> u32 \<Rightarrow> u32 \<Rightarrow> log_info" where
  "special_info s a b c d =
     \<lparr>symbol = Some s, symbol_in_symmod = False, regs0 = a, regs1 = b, regs2 = c, regs3 = d, should_handle = True,
      should_mod_sym = False, should_log = False, symcache = None, symhash = 0\<rparr>"

definition mod_info :: "string \<Rightarrow> u32 \<Rightarrow> u32 \<Rightarrow> u32 \<Rightarrow> u32 \<Rightarrow> log_info" where
  "mod_info s a b c d =
     \<lparr>symbol = Some s, symbol_in_symmod = False, regs0 = a, regs1 = b, regs2 = c, regs3 = d, should_handle = False,
      should_mod_sym = True, should_log = False, symcache = None, symhash = 0\<rparr>"

text \<open>A context that has not been looked up yet.\<close>

definition fresh_info :: "string \<Rightarrow> log_info" where
  "fresh_info s =
     \<lparr>symbol = Some s, symbol_in_symmod = False, regs0 = 0, regs1 = 0, regs2 = 0, regs3 = 0, should_handle = False,
      should_mod_sym = False, should_log = False, symcache = None, symhash = 0\<rparr>"

text \<open>The state of a thread that has a zeroed slot, before any call.\<close>

definition init_world :: world where
  "init_world =
     \<lparr>fdt = init_fdstate, errno = 0,
      retmem = Some \<lparr>ret_sym = None, ret_errno = 0, u32_0 = 0, symmod = []\<rparr>,
      forking = 0, events = []\<rparr>"

text \<open>
  An outside in which the real function returns \<open>rval\<close> and leaves the error code \<open>err\<close>,
  what runs afterwards leaves the error code \<open>later\<close>, every allocation gets memory,
  no application memory is mapped, and \<open>libc.fno\<close> returns \<open>fd\<close>.
\<close>

definition plain_extern :: "u32 \<Rightarrow> u32 \<Rightarrow> u32 \<Rightarrow> int \<Rightarrow> extern" where
  "plain_extern rval err later fd =
     \<lparr>real_rval = rval, real_errno = err, later_errno = later, malloc_a = True,
      malloc_b = True, cstring_at = (\<lambda>a. None), int_at = (\<lambda>a. None), fno = (\<lambda>f. fd),
      getpid = 1, local_strncmp = (\<lambda>a b n. 1)\<rparr>"

text \<open>
  The slot of the channel holds the value the real function returned and the error code
  it left.
\<close>

definition published :: "extern \<Rightarrow> world \<Rightarrow> bool" where
  "published ext w \<longleftrightarrow>
     (\<exists>ret. retmem w = Some ret \<and> ret_errno ret = real_errno ext \<and> u32_0 ret = real_rval ext)"

text \<open>
  The character \<open>handle_rename_fd1\<close> appends for a descriptor, from the table before
  the call: the entry of a descriptor that has one, \<open>f\<close> for a descriptor 0, 1 or 2
  without one, and \<open>?\<close> otherwise.
\<close>

definition fd_category :: "int \<Rightarrow> fdstate \<Rightarrow> char" where
  "fd_category fd s =
     (if 0 \<le> fd \<and> fd < fdtable_sz s then
        (if fdtable s ! nat fd \<noteq> NUL then fdtable s ! nat fd
         else if fd \<le> 2 then CHR ''f'' else CHR ''?'')
      else CHR ''?'')"





section \<open>Sequencing\<close>

lemma ebind_Inl [simp]: "ebind (Inl e) f = Inl e"
  by (simp add: ebind_def)

lemma ebind_Inr [simp]: "ebind (Inr x) f = f x"
  by (simp add: ebind_def)

lemma ebind_eq_Inr: "ebind m f = Inr y \<longleftrightarrow> (\<exists>x. m = Inr x \<and> f x = Inr y)"
  by (cases m) simp_all

section \<open>Properties of the table of descriptor types\<close>

lemma wf_init_fdstate: "wf_fdstate init_fdstate"
  by (simp add: wf_fdstate_def init_fdstate_def MIN_FDTABLE_SZ_def)

lemma newsz_of_gt: "fd < newsz_of fd \<or> fd < 0"
  by (simp add: newsz_of_def MIN_FDTABLE_SZ_def)

lemma grow_wf:
  assumes "wf_fdstate s"
  shows "maybe_grow_fdtable ok fd s =
     (if fd > fdtable_sz s then
        if \<not> fd < MIN_FDTABLE_SZ * 2 \<and> fd * 2 > INT_MAX then Inl SignedOverflow
        else if \<not> ok then Inr (- 1, s)
        else Inr (0, grown fd s)
      else Inr (0, s))"
  using assms
  by (auto simp: maybe_grow_fdtable_def wf_fdstate_def memcpy_def newsz_of_def grown_def
      MIN_FDTABLE_SZ_def Let_def)

lemma wf_grown: "wf_fdstate s \<Longrightarrow> fdtable_sz s < fd \<Longrightarrow> wf_fdstate (grown fd s)"
  using newsz_of_gt[of fd]
  by (simp add: wf_fdstate_def grown_def MIN_FDTABLE_SZ_def)

lemma grown_sz: "fdtable_sz (grown fd s) = newsz_of fd"
  by (simp add: grown_def)

lemma grown_nth_old:
  "wf_fdstate s \<Longrightarrow> i < nat (fdtable_sz s) \<Longrightarrow> fdtable (grown fd s) ! i = fdtable s ! i"
  by (simp add: wf_fdstate_def grown_def nth_append)

lemma grown_nth_new:
  "wf_fdstate s \<Longrightarrow> nat (fdtable_sz s) \<le> i \<Longrightarrow> i < nat (newsz_of fd)
     \<Longrightarrow> fdtable (grown fd s) ! i = NUL"
  by (simp add: wf_fdstate_def grown_def nth_append)

lemma get_fdtype_wf:
  assumes "wf_fdstate s"
  shows "get_fdtype ok fd s =
     (if fd < 0 then Inr (NUL, s)
      else if fd > fdtable_sz s then
        if \<not> fd < MIN_FDTABLE_SZ * 2 \<and> fd * 2 > INT_MAX then Inl SignedOverflow
        else if \<not> ok then Inr (NUL, s)
        else Inr (NUL, grown fd s)
      else if fd = fdtable_sz s then Inl OutOfBounds
      else if fdtable s ! nat fd = NUL \<and> fd \<le> 2
      then Inr (CHR ''f'', s\<lparr>fdtable := (fdtable s)[nat fd := CHR ''f'']\<rparr>)
      else Inr (fdtable s ! nat fd, s))"
proof -
  have a: "nat fd < length (fdtable (grown fd s))" "fdtable (grown fd s) ! nat fd = NUL"
    "\<not> fd \<le> 2" if "fdtable_sz s < fd"
    using that assms wf_grown[OF assms that] grown_nth_new[OF assms, of "nat fd" fd]
      newsz_of_gt[of fd]
    by (simp_all add: wf_fdstate_def grown_sz MIN_FDTABLE_SZ_def)
  show ?thesis
    using assms a
    by (auto simp: get_fdtype_def grow_wf Let_def STDIN_FILENO_def
      STDOUT_FILENO_def STDERR_FILENO_def wf_fdstate_def MIN_FDTABLE_SZ_def)
qed

lemma set_fdtype_wf:
  assumes "wf_fdstate s"
  shows "set_fdtype ok fd c s =
     (if fd < 0 then Inr s
      else if fd > fdtable_sz s then
        if \<not> fd < MIN_FDTABLE_SZ * 2 \<and> fd * 2 > INT_MAX then Inl SignedOverflow
        else if \<not> ok then Inr s
        else Inr ((grown fd s)\<lparr>fdtable := (fdtable (grown fd s))[nat fd := c]\<rparr>)
      else if fd = fdtable_sz s then Inl OutOfBounds
      else Inr (s\<lparr>fdtable := (fdtable s)[nat fd := c]\<rparr>))"
proof -
  have a: "nat fd < length (fdtable (grown fd s))" if "fdtable_sz s < fd"
    using that assms wf_grown[OF assms that] newsz_of_gt[of fd]
    by (simp_all add: wf_fdstate_def grown_sz MIN_FDTABLE_SZ_def)
  show ?thesis
    using assms a
    by (auto simp: set_fdtype_def grow_wf Let_def wf_fdstate_def MIN_FDTABLE_SZ_def)
qed

lemma wf_update: "wf_fdstate s \<Longrightarrow> wf_fdstate (s\<lparr>fdtable := (fdtable s)[i := c]\<rparr>)"
  by (simp add: wf_fdstate_def)

lemma step_shapes:
  assumes "wf_fdstate s" "apply_fdop x s = Inr t"
  shows "t = s \<or> (\<exists>c. 0 \<le> fdop_fd (snd x) \<and> t = s\<lparr>fdtable := (fdtable s)[nat (fdop_fd (snd x)) := c]\<rparr>)
     \<or> (fdtable_sz s < fdop_fd (snd x) \<and> (t = grown (fdop_fd (snd x)) s
         \<or> (\<exists>c. t = (grown (fdop_fd (snd x)) s)
               \<lparr>fdtable := (fdtable (grown (fdop_fd (snd x)) s))[nat (fdop_fd (snd x)) := c]\<rparr>)))"
proof (cases x)
  case (Pair ok op)
  show ?thesis
  proof (cases op)
    case (Get_fdtype g)
    with Pair assms show ?thesis
      by (auto simp: get_fdtype_wf ebind_eq_Inr split: if_splits)
  next
    case (Set_fdtype g c)
    with Pair assms show ?thesis
      by (auto simp: set_fdtype_wf split: if_splits)
  next
    case (Clear_fdtype g)
    with Pair assms show ?thesis
      by (auto simp: clear_fdtype_def split: if_splits)
  qed
qed

lemma apply_fdop_frame:
  assumes "wf_fdstate s" "apply_fdop x s = Inr t" "fdop_fd (snd x) \<noteq> fd" "0 \<le> fd"
    "fd < fdtable_sz s"
  shows "wf_fdstate t \<and> fd < fdtable_sz t \<and> fdtable t ! nat fd = fdtable s ! nat fd"
proof -
  let ?g = "fdop_fd (snd x)"
  have ne: "0 \<le> ?g \<Longrightarrow> nat ?g \<noteq> nat fd"
    using assms(3,4) by simp
  have gr: "wf_fdstate (grown ?g s) \<and> fd < fdtable_sz (grown ?g s)
      \<and> fdtable (grown ?g s) ! nat fd = fdtable s ! nat fd" if "fdtable_sz s < ?g"
    using that assms(1,4,5) wf_grown[OF assms(1) that] grown_nth_old[OF assms(1), of "nat fd" ?g]
      newsz_of_gt[of ?g]
    by (simp add: grown_sz)
  from step_shapes[OF assms(1,2)] show ?thesis
  proof (elim disjE exE conjE)
    assume "t = s"
    with assms show ?thesis by simp
  next
    fix c assume "0 \<le> ?g" "t = s\<lparr>fdtable := (fdtable s)[nat ?g := c]\<rparr>"
    with assms ne wf_update[OF assms(1)] show ?thesis by simp
  next
    assume "fdtable_sz s < ?g" "t = grown ?g s"
    with gr show ?thesis by simp
  next
    fix c assume a: "fdtable_sz s < ?g"
      "t = (grown ?g s)\<lparr>fdtable := (fdtable (grown ?g s))[nat ?g := c]\<rparr>"
    with assms(1,4,5) have "0 \<le> ?g" by (simp add: wf_fdstate_def MIN_FDTABLE_SZ_def)
    with a gr ne wf_update[of "grown ?g s"] show ?thesis by simp
  qed
qed

lemma apply_fdops_frame:
  assumes "wf_fdstate s" "apply_fdops ops s = Inr t" "\<forall>x \<in> set ops. fdop_fd (snd x) \<noteq> fd"
    "0 \<le> fd" "fd < fdtable_sz s"
  shows "wf_fdstate t \<and> fd < fdtable_sz t \<and> fdtable t ! nat fd = fdtable s ! nat fd"
  using assms
proof (induction ops arbitrary: s)
  case Nil
  then show ?case by simp
next
  case (Cons x xs)
  from Cons.prems(2) obtain u where u: "apply_fdop x s = Inr u" "apply_fdops xs u = Inr t"
    by (auto simp: ebind_eq_Inr)
  from Cons.prems have "fdop_fd (snd x) \<noteq> fd" by simp
  from apply_fdop_frame[OF Cons.prems(1) u(1) this Cons.prems(4,5)]
  have v: "wf_fdstate u" "fd < fdtable_sz u" "fdtable u ! nat fd = fdtable s ! nat fd" by auto
  from Cons.prems(3) have "\<forall>x \<in> set xs. fdop_fd (snd x) \<noteq> fd" by simp
  from Cons.IH[OF v(1) u(2) this Cons.prems(4) v(2)] v(3) show ?case by simp
qed

lemma apply_fdops_wf:
  assumes "wf_fdstate s" "apply_fdops ops s = Inr t"
  shows "wf_fdstate t"
  using assms
proof (induction ops arbitrary: s)
  case Nil
  then show ?case by simp
next
  case (Cons x xs)
  from Cons.prems(2) obtain u where u: "apply_fdop x s = Inr u" "apply_fdops xs u = Inr t"
    by (auto simp: ebind_eq_Inr)
  have "wf_fdstate u"
    using step_shapes[OF Cons.prems(1) u(1)] wf_update[OF Cons.prems(1)]
      wf_grown[OF Cons.prems(1)] wf_update[of "grown (fdop_fd (snd x)) s"] Cons.prems(1)
    by auto
  from Cons.IH[OF this u(2)] show ?case .
qed

lemma set_fdtype_returns:
  assumes "wf_fdstate s" "0 \<le> fd" "fd \<noteq> fdtable_sz s" "fd < 2 ^ 30" "ok \<or> fd < fdtable_sz s"
  shows "\<exists>t. set_fdtype ok fd c s = Inr t \<and> wf_fdstate t \<and> fd < fdtable_sz t
           \<and> fdtable t ! nat fd = c
           \<and> fdtable_sz t = (if fdtable_sz s < fd then newsz_of fd else fdtable_sz s)"
proof (cases "fdtable_sz s < fd")
  case True
  have "nat fd < length (fdtable (grown fd s))"
    using wf_grown[OF assms(1) True] newsz_of_gt[of fd] assms(2)
    by (simp add: wf_fdstate_def grown_sz)
  then show ?thesis
    using True assms wf_grown[OF assms(1) True] wf_update[of "grown fd s" "nat fd" c]
      newsz_of_gt[of fd]
    by (simp add: set_fdtype_wf[OF assms(1)] INT_MAX_def grown_sz)
next
  case False
  then show ?thesis
    using assms wf_update[OF assms(1), of "nat fd" c]
    by (simp add: set_fdtype_wf[OF assms(1)] wf_fdstate_def)
qed

lemma get_fdtype_tracked:
  assumes "wf_fdstate s" "0 \<le> fd" "fd < fdtable_sz s" "fdtable s ! nat fd \<noteq> NUL \<or> 2 < fd"
  shows "get_fdtype b fd s = Inr (fdtable s ! nat fd, s)"
  using assms by (auto simp: get_fdtype_wf[OF assms(1)])

lemma clear_fdtype_inrange:
  assumes "wf_fdstate s" "0 \<le> fd" "fd < fdtable_sz s"
  shows "clear_fdtype fd s = Inr (s\<lparr>fdtable := (fdtable s)[nat fd := NUL]\<rparr>)"
  using assms by (simp add: clear_fdtype_def wf_fdstate_def)

lemma get_fdtype_cleared:
  assumes "wf_fdstate s" "0 \<le> fd" "fd < fdtable_sz s"
  shows "\<exists>t. get_fdtype b fd (s\<lparr>fdtable := (fdtable s)[nat fd := NUL]\<rparr>)
           = Inr (if fd \<le> 2 then CHR ''f'' else NUL, t)"
  using assms wf_update[OF assms(1), of "nat fd" NUL]
  by (simp add: get_fdtype_wf wf_fdstate_def)

lemma get_fdtype_inrange_ex:
  assumes "wf_fdstate s" "0 \<le> fd" "fd < fdtable_sz s"
  shows "\<exists>c t. get_fdtype b fd s = Inr (c, t) \<and> wf_fdstate t \<and> fdtable_sz t = fdtable_sz s"
  using assms wf_update[OF assms(1), of "nat fd" "CHR ''f''"]
  by (simp add: get_fdtype_wf[OF assms(1)])

text \<open>
  On a well-formed table an access returns exactly when it is defined, and then the
  table is well formed again with the capacity \<open>capacity_after\<close>.
\<close>

lemma set_fdtype_defined:
  assumes "wf_fdstate s" "access_defined fd (fdtable_sz s)"
  shows "\<exists>t. set_fdtype ok fd c s = Inr t \<and> wf_fdstate t \<and>
           fdtable_sz t = capacity_after ok fd (fdtable_sz s)"
proof (cases "fdtable_sz s < fd")
  case True
  then show ?thesis
    using assms wf_grown[OF assms(1) True] wf_update[of "grown fd s" "nat fd" c]
    by (auto simp: set_fdtype_wf[OF assms(1)] access_defined_def capacity_after_def grown_sz
        wf_fdstate_def MIN_FDTABLE_SZ_def)
next
  case False
  then show ?thesis
    using assms wf_update[OF assms(1), of "nat fd" c]
    by (auto simp: set_fdtype_wf[OF assms(1)] access_defined_def capacity_after_def
        wf_fdstate_def)
qed

lemma get_fdtype_defined:
  assumes "wf_fdstate s" "access_defined fd (fdtable_sz s)"
  shows "\<exists>c t. get_fdtype ok fd s = Inr (c, t) \<and> wf_fdstate t \<and>
           fdtable_sz t = capacity_after ok fd (fdtable_sz s)"
proof (cases "fdtable_sz s < fd")
  case True
  then show ?thesis
    using assms wf_grown[OF assms(1) True]
    by (auto simp: get_fdtype_wf[OF assms(1)] access_defined_def capacity_after_def grown_sz
        wf_fdstate_def MIN_FDTABLE_SZ_def)
next
  case False
  then show ?thesis
    using assms wf_update[OF assms(1), of "nat fd" "CHR ''f''"]
    by (auto simp: get_fdtype_wf[OF assms(1)] access_defined_def capacity_after_def
        wf_fdstate_def)
qed

lemma set_fdtype_undefined:
  assumes "wf_fdstate s" "\<not> access_defined fd (fdtable_sz s)"
  shows "\<exists>e. set_fdtype ok fd c s = Inl e"
  using assms
  by (auto simp: set_fdtype_wf[OF assms(1)] access_defined_def MIN_FDTABLE_SZ_def
      wf_fdstate_def INT_MAX_def)

lemma get_fdtype_undefined:
  assumes "wf_fdstate s" "\<not> access_defined fd (fdtable_sz s)"
  shows "\<exists>e. get_fdtype ok fd s = Inl e"
  using assms
  by (auto simp: get_fdtype_wf[OF assms(1)] access_defined_def MIN_FDTABLE_SZ_def
      wf_fdstate_def INT_MAX_def)

lemma apply_fdop_defined:
  assumes "wf_fdstate s" "op_defined (snd x) (fdtable_sz s)"
  shows "\<exists>t. apply_fdop x s = Inr t \<and> wf_fdstate t \<and>
           fdtable_sz t = op_capacity x (fdtable_sz s)"
proof (cases x)
  case (Pair ok op)
  show ?thesis
  proof (cases op)
    case (Get_fdtype g)
    with Pair assms get_fdtype_defined[OF assms(1), of g ok] show ?thesis
      by auto
  next
    case (Set_fdtype g c)
    with Pair assms set_fdtype_defined[OF assms(1), of g ok c] show ?thesis
      by auto
  next
    case (Clear_fdtype g)
    with Pair assms wf_update[OF assms(1), of "nat g" NUL] show ?thesis
      by (auto simp: clear_fdtype_def wf_fdstate_def)
  qed
qed

lemma apply_fdop_undefined:
  assumes "wf_fdstate s" "\<not> op_defined (snd x) (fdtable_sz s)"
  shows "\<exists>e. apply_fdop x s = Inl e"
proof (cases x)
  case (Pair ok op)
  show ?thesis
  proof (cases op)
    case (Get_fdtype g)
    with Pair assms get_fdtype_undefined[OF assms(1), of g ok] show ?thesis
      by auto
  next
    case (Set_fdtype g c)
    with Pair assms set_fdtype_undefined[OF assms(1), of g ok c] show ?thesis
      by auto
  next
    case (Clear_fdtype g)
    with Pair assms show ?thesis
      by (auto simp: clear_fdtype_def wf_fdstate_def MIN_FDTABLE_SZ_def)
  qed
qed

lemma apply_fdops_defined:
  assumes "wf_fdstate s" "run_defined ops (fdtable_sz s)"
  shows "\<exists>t. apply_fdops ops s = Inr t"
  using assms
proof (induction ops arbitrary: s)
  case Nil
  then show ?case by simp
next
  case (Cons x xs)
  from Cons.prems(2) have d: "op_defined (snd x) (fdtable_sz s)"
    and r: "run_defined xs (op_capacity x (fdtable_sz s))"
    by simp_all
  from apply_fdop_defined[OF Cons.prems(1) d] obtain u where
    u: "apply_fdop x s = Inr u" "wf_fdstate u" "fdtable_sz u = op_capacity x (fdtable_sz s)"
    by blast
  from Cons.IH[OF u(2)] r u(3) obtain t where "apply_fdops xs u = Inr t"
    by auto
  with u(1) show ?case by simp
qed

lemma set_fdtype_tracks:
  assumes "wf_fdstate s" "0 \<le> fd" "access_defined fd (fdtable_sz s)" "ok \<or> fd < fdtable_sz s"
  shows "\<exists>t. set_fdtype ok fd c s = Inr t \<and> wf_fdstate t \<and> fd < fdtable_sz t \<and>
     fdtable t ! nat fd = c \<and>
     fdtable_sz t = capacity_after ok fd (fdtable_sz s) \<and>
     (\<forall>i. 0 \<le> i \<and> i < fdtable_sz s \<and> i \<noteq> fd \<longrightarrow>
        i < fdtable_sz t \<and> fdtable t ! nat i = fdtable s ! nat i)"
proof (cases "fdtable_sz s < fd")
  case True
  let ?t = "(grown fd s)\<lparr>fdtable := (fdtable (grown fd s))[nat fd := c]\<rparr>"
  have wfg: "wf_fdstate (grown fd s)"
    by (rule wf_grown[OF assms(1) True])
  have lt: "fd < newsz_of fd"
    using newsz_of_gt[of fd] assms(2) by simp
  have e: "set_fdtype ok fd c s = Inr ?t"
    using True assms by (auto simp: set_fdtype_wf[OF assms(1)] access_defined_def)
  have len: "nat fd < length (fdtable (grown fd s))"
    using wfg lt assms(2) by (simp add: wf_fdstate_def grown_sz)
  have fr: "i < fdtable_sz ?t \<and> fdtable ?t ! nat i = fdtable s ! nat i"
    if "0 \<le> i" "i < fdtable_sz s" "i \<noteq> fd" for i
    using that True lt grown_nth_old[OF assms(1), of "nat i" fd] assms(2)
    by (simp add: grown_sz)
  show ?thesis
    using e wf_update[OF wfg, of "nat fd" c] lt len fr True assms(4)
    by (auto simp: grown_sz capacity_after_def)
next
  case False
  let ?t = "s\<lparr>fdtable := (fdtable s)[nat fd := c]\<rparr>"
  from False assms(2,3) have lt: "fd < fdtable_sz s"
    by (auto simp: access_defined_def)
  have e: "set_fdtype ok fd c s = Inr ?t"
    using lt assms(2) by (simp add: set_fdtype_wf[OF assms(1)])
  have len: "nat fd < length (fdtable s)"
    using assms(1,2) lt by (simp add: wf_fdstate_def)
  show ?thesis
    using e wf_update[OF assms(1), of "nat fd" c] lt len False assms(2)
    by (auto simp: capacity_after_def)
qed

lemma apply_fdop_keeps:
  assumes "wf_fdstate s" "apply_fdop x s = Inr t" "\<not> resets fd (snd x)" "0 \<le> fd"
    "fd < fdtable_sz s" "fdtable s ! nat fd \<noteq> NUL \<or> 2 < fd"
  shows "wf_fdstate t \<and> fd < fdtable_sz t \<and> fdtable t ! nat fd = fdtable s ! nat fd"
proof (cases "fdop_fd (snd x) = fd")
  case False
  from apply_fdop_frame[OF assms(1,2) False assms(4,5)] show ?thesis .
next
  case True
  with assms(3) obtain ok where x: "x = (ok, Get_fdtype fd)"
    by (cases x, cases "snd x") auto
  from assms(2) x get_fdtype_tracked[OF assms(1,4,5,6), of ok] have "t = s"
    by simp
  with assms(1,5) show ?thesis by simp
qed

lemma apply_fdops_keeps:
  assumes "wf_fdstate s" "apply_fdops ops s = Inr t" "\<forall>x \<in> set ops. \<not> resets fd (snd x)"
    "0 \<le> fd" "fd < fdtable_sz s" "fdtable s ! nat fd \<noteq> NUL \<or> 2 < fd"
  shows "wf_fdstate t \<and> fd < fdtable_sz t \<and> fdtable t ! nat fd = fdtable s ! nat fd"
  using assms
proof (induction ops arbitrary: s)
  case Nil
  then show ?case by simp
next
  case (Cons x xs)
  from Cons.prems(2) obtain u where u: "apply_fdop x s = Inr u" "apply_fdops xs u = Inr t"
    by (auto simp: ebind_eq_Inr)
  from Cons.prems have "\<not> resets fd (snd x)" by simp
  from apply_fdop_keeps[OF Cons.prems(1) u(1) this Cons.prems(4,5,6)]
  have v: "wf_fdstate u" "fd < fdtable_sz u" "fdtable u ! nat fd = fdtable s ! nat fd" by auto
  from Cons.prems(3) have r: "\<forall>x \<in> set xs. \<not> resets fd (snd x)" by simp
  from Cons.prems(6) v(3) have k: "fdtable u ! nat fd \<noteq> NUL \<or> 2 < fd" by simp
  from Cons.IH[OF v(1) u(2) r Cons.prems(4) v(2) k] v(3) show ?case by simp
qed

section \<open>Properties of the handlers\<close>

lemma set_fdtype_w_frame:
  assumes "set_fdtype_w ok fd c w = Inr w'"
  shows "retmem w' = retmem w" "errno w' = errno w" "events w' = events w"
  using assms by (auto simp: set_fdtype_w_def ebind_eq_Inr)

lemma bt_log_frame: "retmem (bt_log info w) = retmem w" "errno (bt_log info w) = errno w"
  "fdt (bt_log info w) = fdt w"
  by (simp_all add: bt_log_def)

lemma publish_result_Inr:
  assumes "publish_result info err rval w = Inr (r, w')"
  shows "r = 1" "\<exists>ret. retmem w' = Some ret \<and> ret_errno ret = err \<and> u32_0 ret = rval"
    "fdt w' = fdt w" "events w' = events w"
  using assms by (auto simp: publish_result_def split: option.splits)

lemma safe_call_retmem: "safe_call ext args w = (rv, err, w1) \<Longrightarrow>
  rv = real_rval ext \<and> err = real_errno ext \<and> retmem w1 = retmem w \<and> fdt w1 = fdt w
    \<and> errno w1 = later_errno ext \<and> events w1 = events w @ [Real_call args]"
  by (auto simp: safe_call_def Let_def)

lemma publish_after_safe_call:
  assumes "safe_call ext args w = (rv, err, w1)" "retmem w3 = retmem w1"
    "publish_result info err rv w3 = Inr (r, w')"
  shows "r = 1 \<and> published ext w'"
  using safe_call_retmem[OF assms(1)] publish_result_Inr(1,2)[OF assms(3)]
  by (simp add: published_def)

lemma set_log_retmem:
  "ebind (set_fdtype_w ok fd c w1) (\<lambda>w2. Inr (bt_log info w2)) = Inr w3
     \<Longrightarrow> retmem w3 = retmem w1"
  by (auto simp: ebind_eq_Inr bt_log_frame dest: set_fdtype_w_frame(1))

lemma tail_published:
  assumes "safe_call ext args w = (rv, err, w1)"
    and "ebind m (\<lambda>w3. publish_result info err rv w3) = Inr (r, w')"
    and "\<And>w3. m = Inr w3 \<Longrightarrow> retmem w3 = retmem w1"
  shows "r = 1 \<and> published ext w'"
proof -
  from assms(2) obtain w3 where w3: "m = Inr w3" "publish_result info err rv w3 = Inr (r, w')"
    by (auto simp: ebind_eq_Inr)
  from publish_after_safe_call[OF assms(1) assms(3)[OF w3(1)] w3(2)] show ?thesis .
qed

lemma handle_open_published:
  assumes "handle_open ext info w = Inr (r, w')"
  shows "r = 0 \<and> w' = w \<or> r = 1 \<and> published ext w'"
proof (cases "should_handle info")
  case False
  with assms show ?thesis by (simp add: handle_open_def)
next
  case True
  obtain rv err w1 where sc: "safe_call ext [regs0 info, regs1 info, regs2 info, regs3 info] w = (rv, err, w1)"
    by (cases "safe_call ext [regs0 info, regs1 info, regs2 info, regs3 info] w") auto
  show ?thesis
  proof (rule disjI2, rule tail_published[OF sc])
    show "ebind (if 0 \<le> sint rv
               then ebind (get_path_type ext (regs0 info)) (\<lambda>type.
                    ebind (set_fdtype_w (malloc_a ext) (sint rv) type w1) (\<lambda>w2.
                    Inr (bt_log info w2)))
               else Inr w1)
          (\<lambda>w3. publish_result info err rv w3) = Inr (r, w')"
      using assms True sc unfolding handle_open_def Let_def by simp
  next
    fix w3
    assume "(if 0 \<le> sint rv
               then ebind (get_path_type ext (regs0 info)) (\<lambda>type.
                    ebind (set_fdtype_w (malloc_a ext) (sint rv) type w1) (\<lambda>w2.
                    Inr (bt_log info w2)))
               else Inr w1) = Inr w3"
    then show "retmem w3 = retmem w1"
      by (auto simp: ebind_eq_Inr[of "get_path_type ext (regs0 info)"] dest: set_log_retmem
          split: if_splits)
  qed
qed

lemma handle_openat_published:
  assumes "handle_openat ext info w = Inr (r, w')"
  shows "r = 0 \<and> w' = w \<or> r = 1 \<and> published ext w'"
proof (cases "should_handle info")
  case False
  with assms show ?thesis by (simp add: handle_openat_def)
next
  case True
  obtain rv err w1 where sc: "safe_call ext [regs0 info, regs1 info, regs2 info] w = (rv, err, w1)"
    by (cases "safe_call ext [regs0 info, regs1 info, regs2 info] w") auto
  show ?thesis
  proof (rule disjI2, rule tail_published[OF sc])
    show "ebind (if 0 \<le> sint rv
               then ebind (get_path_type ext (regs1 info)) (\<lambda>type.
                    ebind (set_fdtype_w (malloc_a ext) (sint rv) type w1) (\<lambda>w2.
                    Inr (bt_log info w2)))
               else Inr w1)
          (\<lambda>w3. publish_result info err rv w3) = Inr (r, w')"
      using assms True sc unfolding handle_openat_def Let_def by simp
  next
    fix w3
    assume "(if 0 \<le> sint rv
               then ebind (get_path_type ext (regs1 info)) (\<lambda>type.
                    ebind (set_fdtype_w (malloc_a ext) (sint rv) type w1) (\<lambda>w2.
                    Inr (bt_log info w2)))
               else Inr w1) = Inr w3"
    then show "retmem w3 = retmem w1"
      by (auto simp: ebind_eq_Inr bt_log_frame dest: set_fdtype_w_frame(1) split: if_splits)
  qed
qed

lemma handle_fopen_published:
  assumes "handle_fopen ext info w = Inr (r, w')"
  shows "r = 0 \<and> w' = w \<or> r = 1 \<and> published ext w'"
proof (cases "should_handle info")
  case False
  with assms show ?thesis by (simp add: handle_fopen_def)
next
  case True
  obtain rv err w1 where sc: "safe_call ext [regs0 info, regs1 info, regs2 info] w = (rv, err, w1)"
    by (cases "safe_call ext [regs0 info, regs1 info, regs2 info] w") auto
  show ?thesis
  proof (rule disjI2, rule tail_published[OF sc])
    show "ebind (if rv \<noteq> 0
               then ebind (get_path_type ext (regs0 info)) (\<lambda>type.
                    ebind (set_fdtype_w (malloc_a ext) (fno ext rv) type w1) (\<lambda>w2.
                    Inr (bt_log info w2)))
               else Inr w1)
          (\<lambda>w3. publish_result info err rv w3) = Inr (r, w')"
      using assms True sc unfolding handle_fopen_def Let_def by simp
  next
    fix w3
    assume "(if rv \<noteq> 0
               then ebind (get_path_type ext (regs0 info)) (\<lambda>type.
                    ebind (set_fdtype_w (malloc_a ext) (fno ext rv) type w1) (\<lambda>w2.
                    Inr (bt_log info w2)))
               else Inr w1) = Inr w3"
    then show "retmem w3 = retmem w1"
      by (auto simp: ebind_eq_Inr bt_log_frame dest: set_fdtype_w_frame(1) split: if_splits)
  qed
qed

lemma handle_socket_published:
  assumes "handle_socket ext info w = Inr (r, w')"
  shows "r = 0 \<and> w' = w \<or> r = 1 \<and> published ext w'"
proof (cases "should_handle info")
  case False
  with assms show ?thesis by (simp add: handle_socket_def)
next
  case True
  obtain rv err w1 where sc: "safe_call ext [regs0 info, regs1 info, regs2 info, regs3 info] w = (rv, err, w1)"
    by (cases "safe_call ext [regs0 info, regs1 info, regs2 info, regs3 info] w") auto
  show ?thesis
  proof (rule disjI2, rule tail_published[OF sc])
    show "ebind (if 0 \<le> sint rv
               then ebind (set_fdtype_w (malloc_a ext) (sint rv) (CHR ''S'') w1) (\<lambda>w2.
                    Inr (bt_log info w2))
               else Inr w1)
          (\<lambda>w3. publish_result info err rv w3) = Inr (r, w')"
      using assms True sc unfolding handle_socket_def Let_def by simp
  next
    fix w3
    assume "(if 0 \<le> sint rv
               then ebind (set_fdtype_w (malloc_a ext) (sint rv) (CHR ''S'') w1) (\<lambda>w2.
                    Inr (bt_log info w2))
               else Inr w1) = Inr w3"
    then show "retmem w3 = retmem w1"
      by (auto simp: ebind_eq_Inr bt_log_frame dest: set_fdtype_w_frame(1) split: if_splits)
  qed
qed

lemma handle_accept_published:
  assumes "handle_accept ext info w = Inr (r, w')"
  shows "r = 0 \<and> w' = w \<or> r = 1 \<and> published ext w'"
proof (cases "should_handle info")
  case False
  with assms show ?thesis by (simp add: handle_accept_def)
next
  case True
  obtain rv err w1 where sc: "safe_call ext [regs0 info, regs1 info, regs2 info] w = (rv, err, w1)"
    by (cases "safe_call ext [regs0 info, regs1 info, regs2 info] w") auto
  show ?thesis
  proof (rule disjI2, rule tail_published[OF sc])
    show "ebind (if 0 \<le> sint rv
               then ebind (set_fdtype_w (malloc_a ext) (sint rv) (CHR ''S'') w1) (\<lambda>w2.
                    Inr (bt_log info w2))
               else Inr w1)
          (\<lambda>w3. publish_result info err rv w3) = Inr (r, w')"
      using assms True sc unfolding handle_accept_def Let_def by simp
  next
    fix w3
    assume "(if 0 \<le> sint rv
               then ebind (set_fdtype_w (malloc_a ext) (sint rv) (CHR ''S'') w1) (\<lambda>w2.
                    Inr (bt_log info w2))
               else Inr w1) = Inr w3"
    then show "retmem w3 = retmem w1"
      by (auto simp: ebind_eq_Inr bt_log_frame dest: set_fdtype_w_frame(1) split: if_splits)
  qed
qed

lemma handle_dup_published:
  assumes "handle_dup ext info w = Inr (r, w')"
  shows "r = 0 \<and> w' = w \<or> r = 1 \<and> published ext w'"
proof (cases "should_handle info \<and> \<not> sint (regs0 info) < 0")
  case False
  with assms show ?thesis by (auto simp: handle_dup_def Let_def split: if_splits)
next
  case True
  with assms obtain type f where
    g: "get_fdtype (malloc_a ext) (sint (regs0 info)) (fdt w) = Inr (type, f)"
    by (auto simp: handle_dup_def Let_def ebind_eq_Inr)
  obtain rv err w1 where sc: "safe_call ext [regs0 info, regs1 info] (w\<lparr>fdt := f\<rparr>) = (rv, err, w1)"
    by (cases "safe_call ext [regs0 info, regs1 info] (w\<lparr>fdt := f\<rparr>)") auto
  show ?thesis
  proof (rule disjI2, rule tail_published[OF sc])
    show "ebind (if 0 \<le> sint rv
                   then ebind (set_fdtype_w (malloc_b ext) (sint rv) type w1) (\<lambda>w2.
                        Inr (bt_log info w2))
                   else Inr w1)
          (\<lambda>w3. publish_result info err rv w3) = Inr (r, w')"
      using assms True sc g unfolding handle_dup_def Let_def by simp
  next
    fix w3
    assume "(if 0 \<le> sint rv
                   then ebind (set_fdtype_w (malloc_b ext) (sint rv) type w1) (\<lambda>w2.
                        Inr (bt_log info w2))
                   else Inr w1) = Inr w3"
    then show "retmem w3 = retmem w1"
      by (auto simp: ebind_eq_Inr bt_log_frame dest: set_fdtype_w_frame(1) split: if_splits)
  qed
qed

lemma handle_pipe_published:
  assumes "handle_pipe ext info w = Inr (r, w')"
  shows "r = 0 \<and> w' = w \<or> r = 1 \<and> published ext w'"
proof (cases "should_handle info")
  case False
  with assms show ?thesis by (simp add: handle_pipe_def)
next
  case True
  with assms obtain c1 where c1: "char_at (symbol info) 1 = Inr c1"
    by (auto simp: handle_pipe_def ebind_eq_Inr)
  consider (pipe) "c1 = CHR ''i''" | (popen) "c1 = CHR ''o''" | (other) "c1 \<noteq> CHR ''i''" "c1 \<noteq> CHR ''o''"
    by blast
  then show ?thesis
  proof cases
    case pipe
    obtain rv err w1 where sc: "safe_call ext [regs0 info, regs1 info] w = (rv, err, w1)"
      by (cases "safe_call ext [regs0 info, regs1 info] w") auto
    show ?thesis
    proof (rule disjI2, rule tail_published[OF sc])
      show "ebind (if rv = 0 \<and> regs0 info \<noteq> 0
                 then ebind (read_int ext (regs0 info) 0) (\<lambda>fd0.
                      ebind (set_fdtype_w (malloc_a ext) fd0 (CHR ''P'') w1) (\<lambda>w2.
                      ebind (read_int ext (regs0 info) 1) (\<lambda>fd1.
                      ebind (set_fdtype_w (malloc_b ext) fd1 (CHR ''P'') w2) (\<lambda>w3.
                      Inr (bt_log info w3)))))
                 else Inr w1)
            (\<lambda>w4. publish_result info err rv w4) = Inr (r, w')"
        using assms True sc c1 pipe unfolding handle_pipe_def Let_def by simp
    next
      fix w3
      assume "(if rv = 0 \<and> regs0 info \<noteq> 0
                 then ebind (read_int ext (regs0 info) 0) (\<lambda>fd0.
                      ebind (set_fdtype_w (malloc_a ext) fd0 (CHR ''P'') w1) (\<lambda>w2.
                      ebind (read_int ext (regs0 info) 1) (\<lambda>fd1.
                      ebind (set_fdtype_w (malloc_b ext) fd1 (CHR ''P'') w2) (\<lambda>w3.
                      Inr (bt_log info w3)))))
                 else Inr w1) = Inr w3"
      then show "retmem w3 = retmem w1"
        by (auto simp: ebind_eq_Inr bt_log_frame dest!: set_fdtype_w_frame(1) split: if_splits)
    qed
  next
    case popen
    let ?w0 = "(flush_and_close info w)\<lparr>forking := getpid ext\<rparr>"
    obtain rv err w1 where sc: "safe_call ext [regs0 info, regs1 info] ?w0 = (rv, err, w1)"
      by (cases "safe_call ext [regs0 info, regs1 info] ?w0") auto
    show ?thesis
    proof (rule disjI2, rule tail_published[OF sc])
      show "ebind (if rv \<noteq> 0
                 then ebind (set_fdtype_w (malloc_a ext) (fno ext rv) (CHR ''p'') w1) (\<lambda>w2.
                      Inr (bt_log info w2))
                 else Inr w1)
            (\<lambda>w3. publish_result info err rv w3) = Inr (r, w')"
        using assms True sc c1 popen unfolding handle_pipe_def Let_def by simp
    next
      fix w3
      assume "(if rv \<noteq> 0
                 then ebind (set_fdtype_w (malloc_a ext) (fno ext rv) (CHR ''p'') w1) (\<lambda>w2.
                      Inr (bt_log info w2))
                 else Inr w1) = Inr w3"
      then show "retmem w3 = retmem w1"
        by (auto simp: ebind_eq_Inr bt_log_frame dest: set_fdtype_w_frame(1) split: if_splits)
    qed
  next
    case other
    with assms True c1 show ?thesis by (simp add: handle_pipe_def)
  qed
qed

lemma wrapped_return_published:
  assumes "published ext w"
  shows "\<exists>w2. wrapped_return (w\<lparr>errno := e\<rparr>) = Inr (real_rval ext, w2) \<and> errno w2 = real_errno ext"
  using assms by (auto simp: published_def wrapped_return_def)

text \<open>A handler that is none of the sentinel values is recorded and replaced.\<close>

lemma handle_signal_installs:
  assumes "should_handle info" "regs1 info \<noteq> 0" "regs1 info \<noteq> SIG_IGN k"
    "regs1 info \<noteq> SIG_DFL k" "regs1 info \<noteq> SIG_ERR k" "0 \<le> sint (regs0 info)"
    "sint (regs0 info) < MAX_SIGNALS" "length (s_sighandler sw) = nat MAX_SIGNALS"
    "\<not> should_log info"
  shows "handle_signal k info sw =
     Inr (0, info\<lparr>regs1 := wrapped_sighandler k\<rparr>,
          sw\<lparr>s_sighandler := (s_sighandler sw)[nat (sint (regs0 info)) := regs1 info]\<rparr>)"
  using assms by (simp add: handle_signal_def install_sighandler_def Let_def MAX_SIGNALS_def)

lemma snprintf_fits:
  assumes "NUL \<notin> set s" "length s + 2 < n"
  shows "snprintf_s_c buf n s c = s @ ''_'' @ [c]"
proof -
  have tw: "takeWhile (\<lambda>x. x \<noteq> NUL) s = s"
    using assms(1) by (induction s) auto
  have "length (s @ ''_'' @ [c]) \<le> n - 1"
    using assms(2) by simp
  then have "take (n - 1) (s @ ''_'' @ [c]) = s @ ''_'' @ [c]"
    by (rule take_all)
  with assms(2) show ?thesis
    unfolding snprintf_s_c_def tw by simp
qed

lemma get_fdtype_category:
  assumes "wf_fdstate s" "access_defined fd (fdtable_sz s)"
  shows "\<exists>c t. get_fdtype ok fd s = Inr (c, t) \<and>
     (if c \<noteq> NUL then c else CHR ''?'') = fd_category fd s"
  using assms
  by (auto simp: get_fdtype_wf[OF assms(1)] fd_category_def access_defined_def)

text \<open>
  On a context that \<open>handle_rename_fd1\<close> has renamed before, the symbol lies in the
  buffer that \<open>snprintf\<close> writes.
\<close>

lemma handle_rename_fd1_twice:
  assumes "should_mod_sym info" "symbol info = Some s" "symbol_in_symmod info"
    "retmem w = Some ret" "wf_fdstate (fdt w)"
    "access_defined (sint (regs0 info)) (fdtable_sz (fdt w))"
  shows "handle_rename_fd1 max_symbol_len ext info w = Inl Overlap"
proof -
  from get_fdtype_category[OF assms(5,6), of "malloc_a ext"] obtain c t where
    "get_fdtype (malloc_a ext) (sint (regs0 info)) (fdt w) = Inr (c, t)"
    by blast
  with assms(1-4) show ?thesis
    by (simp add: handle_rename_fd1_def Let_def)
qed

text \<open>
  A duplicated descriptor gets the type of the old one: when both descriptors are inside
  the table and the old one has an entry, \<open>handle_dup\<close> returns 1 with that entry copied.
\<close>

lemma handle_dup_inherits:
  assumes "should_handle info" "wf_fdstate (fdt w)" "retmem w = Some ret"
    "0 \<le> sint (regs0 info)" "sint (regs0 info) < fdtable_sz (fdt w)"
    "fdtable (fdt w) ! nat (sint (regs0 info)) = c" "c \<noteq> NUL"
    "0 \<le> sint (real_rval ext)" "sint (real_rval ext) < fdtable_sz (fdt w)"
  shows "\<exists>w'. handle_dup ext info w = Inr (1, w') \<and>
           fdtable (fdt w') ! nat (sint (real_rval ext)) = c \<and> published ext w'"
proof -
  have g: "get_fdtype (malloc_a ext) (sint (regs0 info)) (fdt w) = Inr (c, fdt w)"
    using get_fdtype_tracked[OF assms(2,4,5), of "malloc_a ext"] assms(6,7) by simp
  have s: "set_fdtype (malloc_b ext) (sint (real_rval ext)) c (fdt w)
      = Inr ((fdt w)\<lparr>fdtable := (fdtable (fdt w))[nat (sint (real_rval ext)) := c]\<rparr>)"
    using assms(8,9) by (simp add: set_fdtype_wf[OF assms(2)])
  have len: "nat (sint (real_rval ext)) < length (fdtable (fdt w))"
    using assms(2,8,9) by (simp add: wf_fdstate_def)
  show ?thesis
    using assms(1,3,4,8) g s len
    by (simp add: handle_dup_def Let_def safe_call_def set_fdtype_w_def publish_result_def
        bt_log_def published_def)
qed




















section \<open>Properties of the preload value\<close>

lemma scan_to_nul_string:
  "NUL \<notin> set s \<Longrightarrow> scan_to_nul (s @ NUL # rest) = Inr (length s)"
  by (induction s) auto

lemma c_string_terminated:
  "NUL \<notin> set s \<Longrightarrow> c_string (s @ NUL # rest) = s"
  by (induction s) (auto simp: c_string_def)

text \<open>Without memory for the new value the result is the null pointer.\<close>

lemma wrap_ld_preload_no_memory:
  assumes "NUL \<notin> set old" "malloc (length old + length (ld_preload_str nm @ [NUL]) + 1) = None"
  shows "wrap_ld_preload nm malloc (Some (old @ NUL # rest)) = Inr None"
  using assms(2) scan_to_nul_string[OF assms(1), of rest]
  by (simp add: wrap_ld_preload_def Let_def)

section \<open>Properties of the cache of symbol names\<close>

lemma of_char_0_iff: "(of_char b :: int) = 0 \<longleftrightarrow> b = NUL"
  using of_char_eq_iff[of b NUL, where ?'a = int] by simp

lemma local_strcmp_eq_0:
  "NUL \<notin> set a \<Longrightarrow> NUL \<notin> set b \<Longrightarrow> local_strcmp a b = 0 \<longleftrightarrow> a = b"
proof (induction a b rule: local_strcmp.induct)
  case 1
  then show ?case by simp
next
  case (2 b bs)
  then show ?case by (auto simp: of_char_0_iff)
next
  case (3 a as)
  then show ?case by (auto simp: of_char_0_iff)
next
  case (4 a as b bs)
  then show ?case by (auto simp: of_char_0_iff)
qed

lemma wrap_hash_range: "unat (wrap_hash n) < WRAP_CACHE_SZ" "wrap_hash n \<noteq> 0"
proof -
  have "unat (wrap_hash n) < 2 ^ LENGTH(8)"
    by (rule unsigned_less)
  then show "unat (wrap_hash n) < WRAP_CACHE_SZ"
    by (simp add: WRAP_CACHE_SZ_def)
  show "wrap_hash n \<noteq> 0"
    by (simp add: wrap_hash_def Let_def)
qed

text \<open>A second \<open>setup_wrap_cache\<close> changes nothing.\<close>

lemma setup_wrap_cache_twice: "setup_wrap_cache ok (True, c) = Some (Inr (True, c))"
  by (simp add: setup_wrap_cache_def)

lemma get_cached_sym_fresh:
  "get_cached_sym c (fresh_info n) =
     (let entry = unat (wrap_hash n) in
      if \<not> entry < length c then Some (Inl OutOfBounds)
      else if name (c ! entry) = None
      then Some (Inr (None, (fresh_info n)\<lparr>symhash := wrap_hash n\<rparr>))
      else
        (case find_entry c n entry of
           None \<Rightarrow> None
         | Some (Inl err) \<Rightarrow> Some (Inl err)
         | Some (Inr found) \<Rightarrow>
             Some (Inr (found, (fresh_info n)\<lparr>symhash := wrap_hash n, symcache := found\<rparr>))))"
  by (auto simp: get_cached_sym_def fresh_info_def Let_def split: option.splits sum.splits)

section \<open>The properties of the specification\<close>

text \<open>
  C1. The table grows whenever an access names a descriptor beyond the current
  capacity, to \<open>2 * MIN_FDTABLE_SZ\<close> when the descriptor is below that and to twice the
  descriptor otherwise. For a descriptor \<open>fd\<close> from 0 on whose access is defined (it is
  not equal to the capacity, and \<open>fd * 2\<close> fits an \<open>int\<close> when the table has to grow),
  \<open>set_fdtype\<close> returns when the growth it may need gets memory; afterwards the entry
  of \<open>fd\<close> holds the type, \<open>fd\<close> is below the capacity, the capacity is the size of the
  allocation, and every other descriptor that was below the capacity is still below
  it with its entry unchanged. \<open>get_fdtype\<close> for \<open>fd\<close> returns too and leaves the same
  capacity.
\<close>

theorem set_fdtype_fd_below_capacity:
  assumes "wf_fdstate s" "0 \<le> fd" "access_defined fd (fdtable_sz s)" "ok \<or> fd < fdtable_sz s"
  shows "\<exists>t. set_fdtype ok fd c s = Inr t \<and> fd < fdtable_sz t \<and> fdtable t ! nat fd = c \<and>
     fdtable_sz t =
       (if fdtable_sz s < fd
        then (if fd < MIN_FDTABLE_SZ * 2 then MIN_FDTABLE_SZ * 2 else fd * 2)
        else fdtable_sz s) \<and>
     length (fdtable t) = nat (fdtable_sz t) \<and>
     (\<forall>i. 0 \<le> i \<and> i < fdtable_sz s \<and> i \<noteq> fd \<longrightarrow>
        i < fdtable_sz t \<and> fdtable t ! nat i = fdtable s ! nat i) \<and>
     (\<exists>c' t'. get_fdtype ok fd s = Inr (c', t') \<and> fdtable_sz t' = fdtable_sz t)"
proof -
  from get_fdtype_defined[OF assms(1,3), of ok] obtain c' t' where
    g: "get_fdtype ok fd s = Inr (c', t')"
      "fdtable_sz t' = capacity_after ok fd (fdtable_sz s)"
    by blast
  from set_fdtype_tracks[OF assms, of c] obtain t where
    t: "set_fdtype ok fd c s = Inr t" "wf_fdstate t" "fd < fdtable_sz t" "fdtable t ! nat fd = c"
      "fdtable_sz t = capacity_after ok fd (fdtable_sz s)"
      "\<forall>i. 0 \<le> i \<and> i < fdtable_sz s \<and> i \<noteq> fd \<longrightarrow>
        i < fdtable_sz t \<and> fdtable t ! nat i = fdtable s ! nat i"
    by blast
  from t(2) have len: "length (fdtable t) = nat (fdtable_sz t)"
    by (simp add: wf_fdstate_def)
  from t(5) assms(4) have cap: "fdtable_sz t =
       (if fdtable_sz s < fd
        then (if fd < MIN_FDTABLE_SZ * 2 then MIN_FDTABLE_SZ * 2 else fd * 2)
        else fdtable_sz s)"
    by (auto simp: capacity_after_def newsz_of_def)
  from g t(5) have "\<exists>c' t'. get_fdtype ok fd s = Inr (c', t') \<and> fdtable_sz t' = fdtable_sz t"
    by simp
  with t(1,3,4,6) len cap show ?thesis
    by blast
qed

text \<open>
  An instance: descriptor 300 on the initial table with an entry for descriptor 5 grows
  the table to 600 entries and keeps that entry.
\<close>

theorem set_fdtype_fd_below_capacity_witness:
  "\<exists>t. set_fdtype True 300 (CHR ''S'')
          (init_fdstate\<lparr>fdtable := (fdtable init_fdstate)[5 := CHR ''P'']\<rparr>) = Inr t \<and>
        300 < fdtable_sz t \<and> fdtable t ! nat 300 = CHR ''S'' \<and> fdtable_sz t = 600 \<and>
        fdtable t ! nat 5 = CHR ''P''"
proof -
  let ?s = "init_fdstate\<lparr>fdtable := (fdtable init_fdstate)[5 := CHR ''P'']\<rparr>"
  have wf: "wf_fdstate ?s"
    by (rule wf_update[OF wf_init_fdstate])
  have szs: "fdtable_sz ?s = 128"
    by (simp add: init_fdstate_def MIN_FDTABLE_SZ_def)
  have h2: "(0::int) \<le> 300" by simp
  have h3: "access_defined 300 (fdtable_sz ?s)"
    by (simp add: access_defined_def szs INT_MAX_def)
  have h4: "True \<or> 300 < fdtable_sz ?s"
    by simp
  from set_fdtype_fd_below_capacity[OF wf h2 h3 h4, of "CHR ''S''"]
  obtain t where t: "set_fdtype True 300 (CHR ''S'') ?s = Inr t" "300 < fdtable_sz t"
    "fdtable t ! nat 300 = CHR ''S''"
    "fdtable_sz t =
       (if fdtable_sz ?s < 300
        then (if (300::int) < MIN_FDTABLE_SZ * 2 then MIN_FDTABLE_SZ * 2 else 300 * 2)
        else fdtable_sz ?s)"
    and fr: "\<forall>i. 0 \<le> i \<and> i < fdtable_sz ?s \<and> i \<noteq> 300 \<longrightarrow>
        i < fdtable_sz t \<and> fdtable t ! nat i = fdtable ?s ! nat i"
    by blast
  from t(4) have c: "fdtable_sz t = 600"
    by (simp add: szs MIN_FDTABLE_SZ_def)
  from fr[rule_format, of 5] have "fdtable t ! nat 5 = fdtable ?s ! nat 5"
    by (simp add: szs)
  then have k: "fdtable t ! nat 5 = CHR ''P''"
    by (simp add: init_fdstate_def MIN_FDTABLE_SZ_def)
  from t(1,2,3) c k show ?thesis by blast
qed

text \<open>
  As the specification states it, the size of the grown table fails: for descriptor 200
  on the initial table of capacity 128 the new capacity is 256, not
  \<open>max (128 * 2) (200 * 2) = 400\<close>.
\<close>

theorem growth_policy_counterexample:
  "maybe_grow_fdtable True 200 init_fdstate
     = Inr (0, \<lparr>fdtable_sz = 256, fdtable = replicate 256 NUL\<rparr>) \<and>
   fdtable_sz init_fdstate = 128 \<and>
   max (fdtable_sz init_fdstate * 2) (200 * 2) = 400"
  by (simp add: maybe_grow_fdtable_def init_fdstate_def MIN_FDTABLE_SZ_def
      INT_MAX_def memcpy_def replicate_add[symmetric])

text \<open>
  C2. \<open>wrapped_return\<close> aborts with \<open>BUG_MSG(0x4311)\<close> when \<open>get_retmem\<close> returns no
  slot. Otherwise it returns the value of the slot and sets \<open>errno\<close> to the error code
  of the slot; the slot, the table and the events stay as they were, and a second
  \<open>wrapped_return\<close> returns the same value.
\<close>

theorem wrapped_return_reads_slot:
  "(retmem w = None \<longrightarrow> wrapped_return w = Inl (BUG 0x4311)) \<and>
   (\<forall>ret. retmem w = Some ret \<longrightarrow>
      (\<exists>w'. wrapped_return w = Inr (u32_0 ret, w') \<and> errno w' = ret_errno ret \<and>
         retmem w' = Some ret \<and> fdt w' = fdt w \<and> events w' = events w \<and>
         wrapped_return w' = Inr (u32_0 ret, w')))"
  by (auto simp: wrapped_return_def)

text \<open>
  An instance: without a slot the abort, and with a slot the same value twice.
\<close>

theorem wrapped_return_reads_slot_witness:
  "wrapped_return (init_world\<lparr>retmem := None\<rparr>) = Inl (BUG 0x4311) \<and>
   (\<exists>w'. wrapped_return
      (init_world\<lparr>retmem := Some \<lparr>ret_sym = Some ''socket'', ret_errno = 13, u32_0 = 7,
                                     symmod = []\<rparr>\<rparr>) = Inr (7, w') \<and>
      errno w' = 13 \<and>
      retmem w' = Some \<lparr>ret_sym = Some ''socket'', ret_errno = 13, u32_0 = 7, symmod = []\<rparr> \<and>
      wrapped_return w' = Inr (7, w'))"
proof -
  have a: "retmem (init_world\<lparr>retmem := None\<rparr>) = None"
    by simp
  have b: "retmem (init_world\<lparr>retmem := Some \<lparr>ret_sym = Some ''socket'', ret_errno = 13,
       u32_0 = 7, symmod = []\<rparr>\<rparr>)
     = Some \<lparr>ret_sym = Some ''socket'', ret_errno = 13, u32_0 = 7, symmod = []\<rparr>"
    by simp
  from wrapped_return_reads_slot[of "init_world\<lparr>retmem := None\<rparr>", THEN conjunct1, rule_format, OF a]
  have c1: "wrapped_return (init_world\<lparr>retmem := None\<rparr>) = Inl (BUG 0x4311)" .
  from wrapped_return_reads_slot[THEN conjunct2, rule_format, OF b]
  have c2: "\<exists>w'. wrapped_return
      (init_world\<lparr>retmem := Some \<lparr>ret_sym = Some ''socket'', ret_errno = 13, u32_0 = 7,
                                     symmod = []\<rparr>\<rparr>) = Inr (7, w') \<and>
      errno w' = 13 \<and>
      retmem w' = Some \<lparr>ret_sym = Some ''socket'', ret_errno = 13, u32_0 = 7, symmod = []\<rparr> \<and>
      wrapped_return w' = Inr (7, w')"
    by auto
  from c1 c2 show ?thesis by blast
qed

text \<open>
  As the specification states it, the property fails: on a zeroed slot that no handler has written,
  \<open>wrapped_return\<close> returns 0 and does not abort; and after a value was written and
  read, the slot still holds it, so that reading again returns it again.
\<close>

theorem wrapped_return_clears_counterexample:
  "wrapped_return init_world = Inr (0, init_world) \<and>
   retmem init_world = Some \<lparr>ret_sym = None, ret_errno = 0, u32_0 = 0, symmod = []\<rparr> \<and>
   wrapped_return
      (init_world\<lparr>retmem := Some \<lparr>ret_sym = Some ''socket'', ret_errno = 13, u32_0 = 7,
                                     symmod = []\<rparr>\<rparr>)
     = Inr (7, init_world\<lparr>errno := 13,
                 retmem := Some \<lparr>ret_sym = Some ''socket'', ret_errno = 13, u32_0 = 7,
                                 symmod = []\<rparr>\<rparr>) \<and>
   wrapped_return
      (init_world\<lparr>errno := 13,
                 retmem := Some \<lparr>ret_sym = Some ''socket'', ret_errno = 13, u32_0 = 7,
                                 symmod = []\<rparr>\<rparr>)
     = Inr (7, init_world\<lparr>errno := 13,
                 retmem := Some \<lparr>ret_sym = Some ''socket'', ret_errno = 13, u32_0 = 7,
                                 symmod = []\<rparr>\<rparr>)"
  by (simp add: wrapped_return_def init_world_def)

text \<open>
  C3. For a descriptor \<open>fd\<close> from 0 on whose access is defined (it is not equal to the
  capacity, and \<open>fd * 2\<close> fits an \<open>int\<close> when the table has to grow), and a type \<open>c\<close>
  that is not 0 unless \<open>fd\<close> is above 2: when the growth it may need gets memory,
  \<open>set_fdtype\<close> returns and \<open>get_fdtype\<close> then returns \<open>c\<close>. Every run of \<open>get_fdtype\<close>,
  \<open>set_fdtype\<close> and close operations in which no \<open>set_fdtype\<close> and no close is for
  \<open>fd\<close>, every access is defined at the capacity of its time, and no close is for a
  negative descriptor, returns, and \<open>get_fdtype\<close> still returns \<open>c\<close> after it. Right
  after \<open>handle_closefd\<close> has then run for \<open>fd\<close>, \<open>get_fdtype\<close> returns 0 when \<open>fd\<close> is
  above 2 and \<open>f\<close> when \<open>fd\<close> is 0, 1 or 2.
\<close>

theorem get_after_set_until_close:
  assumes "wf_fdstate s" "0 \<le> fd" "access_defined fd (fdtable_sz s)" "ok \<or> fd < fdtable_sz s"
    "c \<noteq> NUL \<or> 2 < fd"
    "\<forall>x \<in> set ops. \<not> resets fd (snd x)"
    "run_defined ops (capacity_after ok fd (fdtable_sz s))"
  shows "\<exists>s1 s2. set_fdtype ok fd c s = Inr s1 \<and> get_fdtype b fd s1 = Inr (c, s1) \<and>
     apply_fdops ops s1 = Inr s2 \<and> get_fdtype b fd s2 = Inr (c, s2) \<and>
     (\<forall>info w. should_handle info \<and> sint (regs0 info) = fd \<and> fdt w = s2 \<longrightarrow>
        (\<exists>w'. handle_closefd info w = Inr (0, w') \<and>
           (\<exists>t. get_fdtype b fd (fdt w') = Inr (if fd \<le> 2 then CHR ''f'' else NUL, t))))"
proof -
  from set_fdtype_tracks[OF assms(1-4), of c] obtain s1 where
    s1: "set_fdtype ok fd c s = Inr s1" "wf_fdstate s1" "fd < fdtable_sz s1"
      "fdtable s1 ! nat fd = c" "fdtable_sz s1 = capacity_after ok fd (fdtable_sz s)"
    by blast
  have g1: "get_fdtype b fd s1 = Inr (c, s1)"
    using get_fdtype_tracked[OF s1(2) assms(2) s1(3), of b] s1(4) assms(5) by simp
  from apply_fdops_defined[OF s1(2), of ops] assms(7) s1(5) obtain s2 where
    run: "apply_fdops ops s1 = Inr s2"
    by auto
  from s1(4) assms(5) have k: "fdtable s1 ! nat fd \<noteq> NUL \<or> 2 < fd"
    by simp
  from apply_fdops_keeps[OF s1(2) run assms(6) assms(2) s1(3) k]
  have s2: "wf_fdstate s2" "fd < fdtable_sz s2" "fdtable s2 ! nat fd = c"
    using s1(4) by simp_all
  have g2: "get_fdtype b fd s2 = Inr (c, s2)"
    using get_fdtype_tracked[OF s2(1) assms(2) s2(2), of b] s2(3) assms(5) by simp
  have cl: "\<exists>w'. handle_closefd info w = Inr (0, w') \<and>
            (\<exists>t. get_fdtype b fd (fdt w') = Inr (if fd \<le> 2 then CHR ''f'' else NUL, t))"
    if "should_handle info" "sint (regs0 info) = fd" "fdt w = s2" for info w
  proof -
    have "handle_closefd info w = Inr (0, w\<lparr>fdt := s2\<lparr>fdtable := (fdtable s2)[nat fd := NUL]\<rparr>\<rparr>)"
      using that clear_fdtype_inrange[OF s2(1) assms(2) s2(2)]
      by (simp add: handle_closefd_def)
    with get_fdtype_cleared[OF s2(1) assms(2) s2(2), of b] show ?thesis
      by simp
  qed
  from s1(1) g1 run g2 cl show ?thesis by blast
qed

text \<open>
  An instance: descriptor 300 is set on the initial table, other descriptors are
  used and 300 is read, and then 300 is closed.
\<close>

theorem get_after_set_until_close_witness:
  "\<exists>s1 s2 w' t.
     set_fdtype True 300 (CHR ''S'') init_fdstate = Inr s1 \<and>
     get_fdtype False 300 s1 = Inr (CHR ''S'', s1) \<and>
     apply_fdops [(True, Set_fdtype 7 (CHR ''P'')), (False, Get_fdtype 1),
                  (False, Clear_fdtype 7), (True, Get_fdtype 700),
                  (False, Get_fdtype 300)] s1 = Inr s2 \<and>
     get_fdtype False 300 s2 = Inr (CHR ''S'', s2) \<and>
     handle_closefd (special_info ''close'' 300 0 0 0) (init_world\<lparr>fdt := s2\<rparr>) = Inr (0, w') \<and>
     get_fdtype False 300 (fdt w') = Inr (NUL, t)"
proof -
  let ?ops = "[(True, Set_fdtype 7 (CHR ''P'')), (False, Get_fdtype 1),
               (False, Clear_fdtype 7), (True, Get_fdtype 700), (False, Get_fdtype 300)]"
  have szs: "fdtable_sz init_fdstate = 128"
    by (simp add: init_fdstate_def MIN_FDTABLE_SZ_def)
  have h2: "(0::int) \<le> 300" by simp
  have h3: "access_defined 300 (fdtable_sz init_fdstate)"
    by (simp add: access_defined_def szs INT_MAX_def)
  have h4: "True \<or> 300 < fdtable_sz init_fdstate" by simp
  have h5: "CHR ''S'' \<noteq> NUL \<or> (2::int) < 300" by simp
  have h6: "\<forall>x \<in> set ?ops. \<not> resets 300 (snd x)"
    by simp
  have h7: "run_defined ?ops (capacity_after True 300 (fdtable_sz init_fdstate))"
    by (simp add: access_defined_def capacity_after_def newsz_of_def szs MIN_FDTABLE_SZ_def
        INT_MAX_def)
  from get_after_set_until_close[OF wf_init_fdstate h2 h3 h4 h5 h6 h7, of False]
  obtain s1 s2 where r: "set_fdtype True 300 (CHR ''S'') init_fdstate = Inr s1"
    "get_fdtype False 300 s1 = Inr (CHR ''S'', s1)"
    "apply_fdops ?ops s1 = Inr s2"
    "get_fdtype False 300 s2 = Inr (CHR ''S'', s2)"
    and cl: "\<forall>info w. should_handle info \<and> sint (regs0 info) = 300 \<and> fdt w = s2 \<longrightarrow>
        (\<exists>w'. handle_closefd info w = Inr (0, w') \<and>
           (\<exists>t. get_fdtype False 300 (fdt w') = Inr (if (300::int) \<le> 2 then CHR ''f'' else NUL, t)))"
    by blast
  have "should_handle (special_info ''close'' 300 0 0 0) \<and>
     sint (regs0 (special_info ''close'' 300 0 0 0)) = 300 \<and> fdt (init_world\<lparr>fdt := s2\<rparr>) = s2"
    by (simp add: special_info_def)
  from cl[rule_format, OF this]
  have "\<exists>w'. handle_closefd (special_info ''close'' 300 0 0 0) (init_world\<lparr>fdt := s2\<rparr>) = Inr (0, w') \<and>
              (\<exists>t. get_fdtype False 300 (fdt w') = Inr (NUL, t))"
    by simp
  with r show ?thesis by blast
qed

text \<open>
  As the specification states it, the property fails for the standard descriptors: after \<open>set_fdtype\<close> of
  descriptor 0 and the close handler for it, \<open>get_fdtype\<close> returns \<open>f\<close>, not 0; and
  after \<open>set_fdtype\<close> of descriptor 1 to the type 0, \<open>get_fdtype\<close> returns \<open>f\<close>.
\<close>

theorem get_after_close_counterexample:
  "set_fdtype True 0 (CHR ''S'') init_fdstate
     = Inr (init_fdstate\<lparr>fdtable := (fdtable init_fdstate)[0 := CHR ''S'']\<rparr>) \<and>
   handle_closefd (special_info ''close'' 0 0 0 0)
       (init_world\<lparr>fdt := init_fdstate\<lparr>fdtable := (fdtable init_fdstate)[0 := CHR ''S'']\<rparr>\<rparr>)
     = Inr (0, init_world\<lparr>fdt := init_fdstate\<lparr>fdtable := (fdtable init_fdstate)[0 := NUL]\<rparr>\<rparr>) \<and>
   get_fdtype True 0 (init_fdstate\<lparr>fdtable := (fdtable init_fdstate)[0 := NUL]\<rparr>)
     = Inr (CHR ''f'', init_fdstate\<lparr>fdtable := (fdtable init_fdstate)[0 := CHR ''f'']\<rparr>) \<and>
   CHR ''f'' \<noteq> NUL \<and>
   set_fdtype True 1 NUL init_fdstate
     = Inr (init_fdstate\<lparr>fdtable := (fdtable init_fdstate)[1 := NUL]\<rparr>) \<and>
   get_fdtype True 1 (init_fdstate\<lparr>fdtable := (fdtable init_fdstate)[1 := NUL]\<rparr>)
     = Inr (CHR ''f'', init_fdstate\<lparr>fdtable := (fdtable init_fdstate)[1 := CHR ''f'']\<rparr>)"
  by (simp add: set_fdtype_def get_fdtype_def clear_fdtype_def handle_closefd_def
      maybe_grow_fdtable_def init_fdstate_def init_world_def special_info_def
      MIN_FDTABLE_SZ_def STDIN_FILENO_def STDOUT_FILENO_def STDERR_FILENO_def)

text \<open>
  C4. Without a prior value \<open>wrap_ld_preload\<close> returns the whole entry: \<open>LD_PRELOAD=\<close>
  followed by the shim's two paths joined by one colon, with no colon before or after
  them. With a prior value it returns, when \<open>libc.malloc\<close> gets a block of the size
  asked for, a new string made of the bytes of the prior value, one colon, and the
  shim's paths: for \<open>/a/b\<close> the string \<open>/a/b:\<close> followed by the shim's paths.
\<close>

theorem wrap_ld_preload_value:
  assumes "NUL \<notin> set old" "NUL \<notin> set (ld_preload_str nm)"
    "malloc (length old + length (ld_preload_str nm @ [NUL]) + 1) = Some blk"
    "length blk = length old + length (ld_preload_str nm @ [NUL]) + 1"
  shows "(\<exists>p. wrap_ld_preload nm malloc None = Inr (Some p) \<and>
            c_string p = ''LD_PRELOAD='' @ ld_preload_str nm) \<and>
     (\<exists>p. wrap_ld_preload nm malloc (Some (old @ NUL # rest)) = Inr (Some p) \<and>
            p = old @ '':'' @ ld_preload_str nm @ [NUL] \<and>
            c_string p = old @ '':'' @ ld_preload_str nm)"
proof -
  have n1: "NUL \<notin> set (''LD_PRELOAD='' @ ld_preload_str nm)"
    using assms(2) by simp
  have a: "c_string (''LD_PRELOAD='' @ ld_preload_str nm @ [NUL]) = ''LD_PRELOAD='' @ ld_preload_str nm"
    using c_string_terminated[OF n1, of "[]"] by simp
  have n2: "NUL \<notin> set (old @ '':'' @ ld_preload_str nm)"
    using assms(1,2) by simp
  have b: "c_string (old @ '':'' @ ld_preload_str nm @ [NUL]) = old @ '':'' @ ld_preload_str nm"
    using c_string_terminated[OF n2, of "[]"] by simp
  let ?ld = "ld_preload_str nm @ [NUL]"
  obtain b1 x b3 where blk: "blk = b1 @ x # b3" "length b1 = length old" "length b3 = length ?ld"
  proof -
    have "blk = take (length old) blk @ blk ! length old # drop (Suc (length old)) blk"
      using assms(4) by (simp add: id_take_nth_drop[symmetric])
    moreover have "length (take (length old) blk) = length old"
      "length (drop (Suc (length old)) blk) = length ?ld"
      using assms(4) by simp_all
    ultimately show ?thesis using that by blast
  qed
  have p1: "memcpy blk 0 (old @ NUL # rest) (length old) = Inr (old @ x # b3)"
    using blk by (simp add: memcpy_def)
  have p2: "store_byte (old @ x # b3) (length old) (CHR '':'') = Inr (old @ CHR '':'' # b3)"
    by (simp add: store_byte_def)
  have p3: "memcpy (old @ CHR '':'' # b3) (length old + 1) ?ld (length ?ld)
      = Inr (old @ CHR '':'' # ?ld)"
    using blk(3) by (simp add: memcpy_def)
  have c: "wrap_ld_preload nm malloc (Some (old @ NUL # rest))
      = Inr (Some (old @ '':'' @ ld_preload_str nm @ [NUL]))"
    using assms(3) scan_to_nul_string[OF assms(1), of rest] p1 p2 p3
    unfolding wrap_ld_preload_def Let_def by simp
  have d: "wrap_ld_preload nm malloc None = Inr (Some (''LD_PRELOAD='' @ ld_preload_str nm @ [NUL]))"
    by (simp add: wrap_ld_preload_def Let_def)
  from a b c d show ?thesis by simp
qed

text \<open>
  An instance, for the paths of a build under \<open>/system/lib\<close>.
\<close>

theorem wrap_ld_preload_value_witness:
  "(\<exists>p. wrap_ld_preload \<lparr>LIB_PATH = ''/system/lib'', IBNAM = ''_ibc_so'', LIBNAME = ''libc.so''\<rparr>
          (\<lambda>n. Some (replicate n (CHR ''#''))) None = Inr (Some p) \<and>
        c_string p = ''LD_PRELOAD=/system/lib/_ibc_so:/system/lib/libc.so'') \<and>
   (\<exists>p. wrap_ld_preload \<lparr>LIB_PATH = ''/system/lib'', IBNAM = ''_ibc_so'', LIBNAME = ''libc.so''\<rparr>
          (\<lambda>n. Some (replicate n (CHR ''#''))) (Some (''/a/b'' @ [NUL])) = Inr (Some p) \<and>
        c_string p = ''/a/b:/system/lib/_ibc_so:/system/lib/libc.so'')"
proof -
  let ?nm = "\<lparr>LIB_PATH = ''/system/lib'', IBNAM = ''_ibc_so'', LIBNAME = ''libc.so''\<rparr>"
  let ?m = "\<lambda>n. Some (replicate n (CHR ''#''))"
  have l: "ld_preload_str ?nm = ''/system/lib/_ibc_so:/system/lib/libc.so''"
    by (simp add: ld_preload_str_def)
  have h1: "NUL \<notin> set ''/a/b''" by simp
  have h2: "NUL \<notin> set (ld_preload_str ?nm)" by (simp add: l)
  have h3: "?m (length ''/a/b'' + length (ld_preload_str ?nm @ [NUL]) + 1)
     = Some (replicate (length ''/a/b'' + length (ld_preload_str ?nm @ [NUL]) + 1) (CHR ''#''))"
    by simp
  have h4: "length (replicate (length ''/a/b'' + length (ld_preload_str ?nm @ [NUL]) + 1) (CHR ''#''))
     = length ''/a/b'' + length (ld_preload_str ?nm @ [NUL]) + 1"
    by simp
  from wrap_ld_preload_value[of "''/a/b''" ?nm ?m
      "replicate (length ''/a/b'' + length (ld_preload_str ?nm @ [NUL]) + 1) (CHR ''#'')" "[]",
      OF h1 h2 h3 h4]
  show ?thesis
    by (simp add: l)
qed

text \<open>
  As the specification states it, the property fails without a prior value: the result
  is not the shim's paths alone, it starts with \<open>LD_PRELOAD=\<close>.
\<close>

theorem fresh_preload_counterexample:
  "wrap_ld_preload \<lparr>LIB_PATH = ''/system/lib'', IBNAM = ''_ibc_so'', LIBNAME = ''libc.so''\<rparr>
      (\<lambda>n. Some (replicate n (CHR ''#''))) None
     = Inr (Some (''LD_PRELOAD=/system/lib/_ibc_so:/system/lib/libc.so'' @ [NUL])) \<and>
   ld_preload_str \<lparr>LIB_PATH = ''/system/lib'', IBNAM = ''_ibc_so'', LIBNAME = ''libc.so''\<rparr>
     = ''/system/lib/_ibc_so:/system/lib/libc.so'' \<and>
   c_string (''LD_PRELOAD=/system/lib/_ibc_so:/system/lib/libc.so'' @ [NUL])
     = ''LD_PRELOAD=/system/lib/_ibc_so:/system/lib/libc.so'' \<and>
   ''LD_PRELOAD=/system/lib/_ibc_so:/system/lib/libc.so''
     \<noteq> ''/system/lib/_ibc_so:/system/lib/libc.so''"
  by (simp add: wrap_ld_preload_def ld_preload_str_def c_string_def)

text \<open>
  C5. Two different symbol names with the same \<open>wrap_hash\<close> are registered in the zeroed
  cache, the second with memory for its overflow entry. Then both \<open>add_entry\<close> calls
  return, \<open>get_cached_sym\<close> on a context not yet looked up returns for each name an
  entry that holds this name, its handler and its two flags, and for every other name
  it returns the null pointer.
\<close>

theorem colliding_symbols_resolve:
  assumes "n1 \<noteq> n2" "wrap_hash n1 = wrap_hash n2" "NUL \<notin> set n1" "NUL \<notin> set n2"
  shows "\<exists>c1 c2.
     add_entry ok n1 h1 ws1 ms1 init_wrap_cache = Some (Inr c1) \<and>
     add_entry True n2 h2 ws2 ms2 c1 = Some (Inr c2) \<and>
     (\<exists>e i. get_cached_sym c2 (fresh_info n1) = Some (Inr (Some e, i)) \<and>
        name (c2 ! e) = Some n1 \<and> handler (c2 ! e) = h1 \<and>
        wrapsym (c2 ! e) = of_int ws1 \<and> modsym (c2 ! e) = of_int ms1) \<and>
     (\<exists>e i. get_cached_sym c2 (fresh_info n2) = Some (Inr (Some e, i)) \<and>
        name (c2 ! e) = Some n2 \<and> handler (c2 ! e) = h2 \<and>
        wrapsym (c2 ! e) = of_int ws2 \<and> modsym (c2 ! e) = of_int ms2) \<and>
     (\<forall>n3. n3 \<noteq> n1 \<and> n3 \<noteq> n2 \<and> NUL \<notin> set n3 \<longrightarrow>
        (\<exists>i. get_cached_sym c2 (fresh_info n3) = Some (Inr (None, i))))"
proof -
  define h where "h = unat (wrap_hash n1)"
  define E1 where "E1 = zero_entry\<lparr>name := Some n1, handler := h1, wrapsym := of_int ws1,
                                   modsym := of_int ms1\<rparr>"
  define E2 where "E2 = zero_entry\<lparr>name := Some n2, handler := h2, wrapsym := of_int ws2,
                                   modsym := of_int ms2\<rparr>"
  define c1 where "c1 = init_wrap_cache[h := E1]"
  define c2 where "c2 = init_wrap_cache[h := E1\<lparr>next_entry := Some WRAP_CACHE_SZ\<rparr>] @ [E2]"
  have hlt: "h < WRAP_CACHE_SZ"
    unfolding h_def by (rule wrap_hash_range(1))
  have h2: "unat (wrap_hash n2) = h"
    using assms(2) by (simp add: h_def)
  have len0: "length init_wrap_cache = WRAP_CACHE_SZ"
    by (simp add: init_wrap_cache_def)
  have init_nth: "init_wrap_cache ! j = zero_entry" if "j < WRAP_CACHE_SZ" for j
    using that by (simp add: init_wrap_cache_def)
  have a1: "add_entry ok n1 h1 ws1 ms1 init_wrap_cache = Some (Inr c1)"
    using hlt init_nth[OF hlt]
    by (simp add: add_entry_def Let_def h_def[symmetric] len0 fill_entry_def c1_def E1_def
        zero_entry_def)
  have c1h: "c1 ! h = E1" and len1: "length c1 = WRAP_CACHE_SZ"
    using hlt by (simp_all add: c1_def len0)
  have ce: "chain_end (c1 @ [zero_entry]) h = Some (Inr h)"
    using hlt c1h
    by (subst chain_end.simps) (simp add: len1 nth_append E1_def zero_entry_def)
  have upd: "fill_entry WRAP_CACHE_SZ n2 h2 ws2 ms2
       ((c1 @ [zero_entry])[h := ((c1 @ [zero_entry]) ! h)\<lparr>next_entry := Some WRAP_CACHE_SZ\<rparr>]) = c2"
    using hlt c1h
    by (simp add: fill_entry_def c2_def c1_def len0 nth_append list_update_append E2_def)
  have a2: "add_entry True n2 h2 ws2 ms2 c1 = Some (Inr c2)"
    using hlt c1h ce upd
    by (simp add: add_entry_def Let_def h2 len1 E1_def)
  have len2: "length c2 = Suc WRAP_CACHE_SZ"
    by (simp add: c2_def len0)
  have c2h: "c2 ! h = E1\<lparr>next_entry := Some WRAP_CACHE_SZ\<rparr>"
    using hlt by (simp add: c2_def nth_append len0)
  have c2e: "c2 ! WRAP_CACHE_SZ = E2"
    by (simp add: c2_def nth_append len0)
  have c2j: "c2 ! j = zero_entry" if "j < WRAP_CACHE_SZ" "j \<noteq> h" for j
    using that init_nth[OF that(1)] by (simp add: c2_def nth_append len0)
  have E1f: "name E1 = Some n1" "handler E1 = h1" "wrapsym E1 = of_int ws1" "modsym E1 = of_int ms1"
    "next_entry E1 = None"
    by (simp_all add: E1_def zero_entry_def)
  have E2f: "name E2 = Some n2" "handler E2 = h2" "wrapsym E2 = of_int ws2" "modsym E2 = of_int ms2"
    "next_entry E2 = None"
    by (simp_all add: E2_def zero_entry_def)
  have f1: "find_entry c2 n1 h = Some (Inr (Some h))"
    using hlt local_strcmp_eq_0[OF assms(3) assms(3)]
    by (subst find_entry.simps) (simp add: len2 c2h E1f)
  have fe: "find_entry c2 n WRAP_CACHE_SZ = Some (Inr (if n = n2 then Some WRAP_CACHE_SZ else None))"
    if "NUL \<notin> set n" for n
    using local_strcmp_eq_0[OF that assms(4)]
    by (subst find_entry.simps) (simp add: len2 c2e E2f)
  have fh: "find_entry c2 n h = Some (Inr (if n = n2 then Some WRAP_CACHE_SZ else None))"
    if "NUL \<notin> set n" "n \<noteq> n1" for n
    using hlt local_strcmp_eq_0[OF that(1) assms(3)] that(2) fe[OF that(1)]
    by (subst find_entry.simps) (simp add: len2 c2h E1f)
  have g1: "\<exists>e i. get_cached_sym c2 (fresh_info n1) = Some (Inr (Some e, i)) \<and>
        name (c2 ! e) = Some n1 \<and> handler (c2 ! e) = h1 \<and>
        wrapsym (c2 ! e) = of_int ws1 \<and> modsym (c2 ! e) = of_int ms1"
    using hlt f1
    by (simp add: get_cached_sym_fresh h_def[symmetric] len2 c2h E1f)
  have g2: "\<exists>e i. get_cached_sym c2 (fresh_info n2) = Some (Inr (Some e, i)) \<and>
        name (c2 ! e) = Some n2 \<and> handler (c2 ! e) = h2 \<and>
        wrapsym (c2 ! e) = of_int ws2 \<and> modsym (c2 ! e) = of_int ms2"
    using hlt fh[OF assms(4)] assms(1)
    by (simp add: get_cached_sym_fresh h2 len2 c2h c2e E1f E2f)
  have g3: "\<exists>i. get_cached_sym c2 (fresh_info n3) = Some (Inr (None, i))"
    if "n3 \<noteq> n1" "n3 \<noteq> n2" "NUL \<notin> set n3" for n3
  proof (cases "unat (wrap_hash n3) = h")
    case True
    with hlt fh[OF that(3,1)] that(2) show ?thesis
      by (simp add: get_cached_sym_fresh len2 c2h E1f)
  next
    case False
    with c2j[OF wrap_hash_range(1)[of n3]] wrap_hash_range(1)[of n3] show ?thesis
      by (simp add: get_cached_sym_fresh len2 zero_entry_def)
  qed
  from a1 a2 g1 g2 g3 show ?thesis by blast
qed

text \<open>
  An instance: \<open>open\<close> and \<open>popen\<close> have the same hash and are both registered.
\<close>

theorem colliding_symbols_resolve_witness:
  "wrap_hash ''open'' = wrap_hash ''popen'' \<and>
   (\<exists>c1 c2.
     add_entry True ''open'' (Some Handle_open) 1 0 init_wrap_cache = Some (Inr c1) \<and>
     add_entry True ''popen'' (Some Handle_pipe) 1 0 c1 = Some (Inr c2) \<and>
     (\<exists>e i. get_cached_sym c2 (fresh_info ''open'') = Some (Inr (Some e, i)) \<and>
        name (c2 ! e) = Some ''open'' \<and> handler (c2 ! e) = Some Handle_open) \<and>
     (\<exists>e i. get_cached_sym c2 (fresh_info ''popen'') = Some (Inr (Some e, i)) \<and>
        name (c2 ! e) = Some ''popen'' \<and> handler (c2 ! e) = Some Handle_pipe) \<and>
     (\<exists>i. get_cached_sym c2 (fresh_info ''close'') = Some (Inr (None, i))))"
proof -
  have h: "wrap_hash ''open'' = wrap_hash ''popen''"
    by code_simp
  have d: "''open'' \<noteq> ''popen''" by simp
  have n1: "NUL \<notin> set ''open''" by simp
  have n2: "NUL \<notin> set ''popen''" by simp
  have n3: "''close'' \<noteq> ''open'' \<and> ''close'' \<noteq> ''popen'' \<and> NUL \<notin> set ''close''" by simp
  from colliding_symbols_resolve[OF d h n1 n2, of True "Some Handle_open" 1 0 "Some Handle_pipe" 1 0]
  obtain c1 c2 where c:
    "add_entry True ''open'' (Some Handle_open) 1 0 init_wrap_cache = Some (Inr c1) \<and>
     add_entry True ''popen'' (Some Handle_pipe) 1 0 c1 = Some (Inr c2) \<and>
     (\<exists>e i. get_cached_sym c2 (fresh_info ''open'') = Some (Inr (Some e, i)) \<and>
        name (c2 ! e) = Some ''open'' \<and> handler (c2 ! e) = Some Handle_open \<and>
        wrapsym (c2 ! e) = of_int 1 \<and> modsym (c2 ! e) = of_int 0) \<and>
     (\<exists>e i. get_cached_sym c2 (fresh_info ''popen'') = Some (Inr (Some e, i)) \<and>
        name (c2 ! e) = Some ''popen'' \<and> handler (c2 ! e) = Some Handle_pipe \<and>
        wrapsym (c2 ! e) = of_int 1 \<and> modsym (c2 ! e) = of_int 0) \<and>
     (\<forall>n3. n3 \<noteq> ''open'' \<and> n3 \<noteq> ''popen'' \<and> NUL \<notin> set n3 \<longrightarrow>
        (\<exists>i. get_cached_sym c2 (fresh_info n3) = Some (Inr (None, i))))"
    by (elim exE) (erule that)
  note a1 = c[THEN conjunct1]
  note a2 = c[THEN conjunct2, THEN conjunct1]
  note q1 = c[THEN conjunct2, THEN conjunct2, THEN conjunct1]
  note q2 = c[THEN conjunct2, THEN conjunct2, THEN conjunct2, THEN conjunct1]
  note miss = c[THEN conjunct2, THEN conjunct2, THEN conjunct2, THEN conjunct2]
  from miss[rule_format, OF n3]
  have m: "\<exists>i. get_cached_sym c2 (fresh_info ''close'') = Some (Inr (None, i))" .
  from q1 have g1: "\<exists>e i. get_cached_sym c2 (fresh_info ''open'') = Some (Inr (Some e, i)) \<and>
        name (c2 ! e) = Some ''open'' \<and> handler (c2 ! e) = Some Handle_open"
    by (elim exE conjE) (intro exI conjI)
  from q2 have g2: "\<exists>e i. get_cached_sym c2 (fresh_info ''popen'') = Some (Inr (Some e, i)) \<and>
        name (c2 ! e) = Some ''popen'' \<and> handler (c2 ! e) = Some Handle_pipe"
    by (elim exE conjE) (intro exI conjI)
  from a1 a2 g1 g2 m have "\<exists>c1 c2.
     add_entry True ''open'' (Some Handle_open) 1 0 init_wrap_cache = Some (Inr c1) \<and>
     add_entry True ''popen'' (Some Handle_pipe) 1 0 c1 = Some (Inr c2) \<and>
     (\<exists>e i. get_cached_sym c2 (fresh_info ''open'') = Some (Inr (Some e, i)) \<and>
        name (c2 ! e) = Some ''open'' \<and> handler (c2 ! e) = Some Handle_open) \<and>
     (\<exists>e i. get_cached_sym c2 (fresh_info ''popen'') = Some (Inr (Some e, i)) \<and>
        name (c2 ! e) = Some ''popen'' \<and> handler (c2 ! e) = Some Handle_pipe) \<and>
     (\<exists>i. get_cached_sym c2 (fresh_info ''close'') = Some (Inr (None, i)))"
    by (intro exI[of _ c1] exI[of _ c2]) (assumption | rule conjI)+
  with h show ?thesis by (rule conjI)
qed



text \<open>
  C7. When the handler the application installs is null or one of \<open>SIG_IGN\<close>,
  \<open>SIG_DFL\<close>, \<open>SIG_ERR\<close>, both \<open>handle_signal\<close> (handler in the second register) and
  \<open>handle_sigaction\<close> (handler in the \<open>sa_sigaction\<close> field of the descriptor the second
  register points to) return 0 and change nothing: \<open>s_sighandler\<close>, the register and
  the descriptor are as before. \<open>handle_sigaction\<close> does the same for a null descriptor.
\<close>

theorem sentinel_handlers_untracked:
  assumes "sh = 0 \<or> sh = SIG_IGN k \<or> sh = SIG_DFL k \<or> sh = SIG_ERR k"
  shows "(regs1 info = sh \<longrightarrow> handle_signal k info sw = Inr (0, info, sw)) \<and>
     (regs1 info \<noteq> 0 \<and> sa_sigaction_at sw (regs1 info) = Some sh \<longrightarrow>
        handle_sigaction k info sw = Inr (0, info, sw)) \<and>
     (regs1 info = 0 \<longrightarrow> handle_sigaction k info sw = Inr (0, info, sw))"
  using assms by (auto simp: handle_signal_def handle_sigaction_def Let_def)

text \<open>
  An instance: \<open>SIG_IGN\<close> installed for signal 13 through either call.
\<close>

theorem sentinel_handlers_untracked_witness:
  "handle_signal \<lparr>SIG_DFL = 0, SIG_IGN = 1, SIG_ERR = - 1, wrapped_sighandler = 0x4000\<rparr>
      (special_info ''signal'' 13 1 0 0) (init_sig_world (\<lambda>a. None))
     = Inr (0, special_info ''signal'' 13 1 0 0, init_sig_world (\<lambda>a. None)) \<and>
   handle_sigaction \<lparr>SIG_DFL = 0, SIG_IGN = 1, SIG_ERR = - 1, wrapped_sighandler = 0x4000\<rparr>
      (special_info ''sig_action'' 13 0x1000 0 0) (init_sig_world (\<lambda>a. if a = 0x1000 then Some 1 else None))
     = Inr (0, special_info ''sig_action'' 13 0x1000 0 0,
            init_sig_world (\<lambda>a. if a = 0x1000 then Some 1 else None))"
proof -
  let ?k = "\<lparr>SIG_DFL = 0, SIG_IGN = 1, SIG_ERR = - 1, wrapped_sighandler = 0x4000\<rparr>"
  have h: "(1::u32) = 0 \<or> 1 = SIG_IGN ?k \<or> 1 = SIG_DFL ?k \<or> 1 = SIG_ERR ?k"
    by simp
  have a: "regs1 (special_info ''signal'' 13 1 0 0) = 1"
    by (simp add: special_info_def)
  have b: "regs1 (special_info ''sig_action'' 13 0x1000 0 0) \<noteq> 0 \<and>
     sa_sigaction_at (init_sig_world (\<lambda>a. if a = 0x1000 then Some 1 else None))
       (regs1 (special_info ''sig_action'' 13 0x1000 0 0)) = Some 1"
    by (simp add: special_info_def init_sig_world_def)
  from sentinel_handlers_untracked[OF h, THEN conjunct1, rule_format, OF a]
    sentinel_handlers_untracked[OF h, THEN conjunct2, THEN conjunct1, rule_format, OF b]
  show ?thesis by (rule conjI)
qed

text \<open>
  C8. \<open>handle_rename_fd1\<close> is called with \<open>should_mod_sym\<close> set, on a thread that has a
  return slot, for a context whose symbol it has not renamed before (the symbol does
  not lie in the slot), a symbol that with two more characters fits \<open>MAX_SYMBOL_LEN\<close>,
  and a first register that, read as an \<open>int\<close>, is a descriptor whose access is
  defined (it is negative, or it is not equal to the capacity and twice it fits an
  \<open>int\<close> when the table has to grow). Then it returns 0 and the symbol becomes the old
  symbol, an underscore and one character: the table entry of the descriptor when it
  has one (\<open>read_S\<close> for an entry \<open>S\<close>), \<open>f\<close> when it is 0, 1 or 2 and has none
  (\<open>read_f\<close>), and \<open>?\<close> otherwise (\<open>read_?\<close>).
\<close>

theorem rename_fd1_symbol:
  assumes "should_mod_sym info" "symbol info = Some s" "\<not> symbol_in_symmod info"
    "NUL \<notin> set s" "length s + 2 < max_symbol_len" "retmem w = Some ret"
    "wf_fdstate (fdt w)" "access_defined (sint (regs0 info)) (fdtable_sz (fdt w))"
  shows "\<exists>info' w'. handle_rename_fd1 max_symbol_len ext info w = Inr (0, info', w') \<and>
     symbol info' = Some (s @ ''_'' @ [fd_category (sint (regs0 info)) (fdt w)])"
proof -
  from get_fdtype_category[OF assms(7,8), of "malloc_a ext"] obtain c t where
    g: "get_fdtype (malloc_a ext) (sint (regs0 info)) (fdt w) = Inr (c, t)"
      "(if c \<noteq> NUL then c else CHR ''?'') = fd_category (sint (regs0 info)) (fdt w)"
    by blast
  show ?thesis
    using assms(1,2,3,6) g snprintf_fits[OF assms(4,5)]
    by (simp add: handle_rename_fd1_def Let_def)
qed

text \<open>
  An instance: \<open>read\<close> on a descriptor marked \<open>S\<close> and on one without an entry.
\<close>

theorem rename_fd1_symbol_witness:
  "set_fdtype True 5 (CHR ''S'') init_fdstate
     = Inr (init_fdstate\<lparr>fdtable := (fdtable init_fdstate)[5 := CHR ''S'']\<rparr>) \<and>
   (\<exists>info' w'. handle_rename_fd1 128 (plain_extern 0 0 0 0) (mod_info ''read'' 5 0 0 0)
        (init_world\<lparr>fdt := init_fdstate\<lparr>fdtable := (fdtable init_fdstate)[5 := CHR ''S'']\<rparr>\<rparr>)
      = Inr (0, info', w') \<and> symbol info' = Some ''read_S'') \<and>
   (\<exists>info' w'. handle_rename_fd1 128 (plain_extern 0 0 0 0) (mod_info ''read'' 6 0 0 0)
        (init_world\<lparr>fdt := init_fdstate\<lparr>fdtable := (fdtable init_fdstate)[5 := CHR ''S'']\<rparr>\<rparr>)
      = Inr (0, info', w') \<and> symbol info' = Some ''read_?'')"
proof -
  let ?s = "init_fdstate\<lparr>fdtable := (fdtable init_fdstate)[5 := CHR ''S'']\<rparr>"
  let ?w = "init_world\<lparr>fdt := ?s\<rparr>"
  have e: "set_fdtype True 5 (CHR ''S'') init_fdstate = Inr ?s"
    using set_fdtype_wf[OF wf_init_fdstate, of True 5 "CHR ''S''"]
    by (simp add: init_fdstate_def MIN_FDTABLE_SZ_def)
  have wf: "wf_fdstate (fdt ?w)"
    using wf_update[OF wf_init_fdstate, of 5 "CHR ''S''"] by simp
  have r: "retmem ?w = Some \<lparr>ret_sym = None, ret_errno = 0, u32_0 = 0, symmod = []\<rparr>"
    by (simp add: init_world_def)
  have c5: "fd_category 5 (fdt ?w) = CHR ''S''" and c6: "fd_category 6 (fdt ?w) = CHR ''?''"
    by (simp_all add: fd_category_def init_fdstate_def MIN_FDTABLE_SZ_def)
  have a: "\<exists>info' w'. handle_rename_fd1 128 (plain_extern 0 0 0 0) (mod_info ''read'' 5 0 0 0) ?w
      = Inr (0, info', w') \<and> symbol info' = Some ''read_S''"
    using rename_fd1_symbol[of "mod_info ''read'' 5 0 0 0" "''read''" 128 ?w _ "plain_extern 0 0 0 0",
        OF _ _ _ _ _ r wf] c5
    by (simp add: mod_info_def init_fdstate_def MIN_FDTABLE_SZ_def access_defined_def)
  have b: "\<exists>info' w'. handle_rename_fd1 128 (plain_extern 0 0 0 0) (mod_info ''read'' 6 0 0 0) ?w
      = Inr (0, info', w') \<and> symbol info' = Some ''read_?''"
    using rename_fd1_symbol[of "mod_info ''read'' 6 0 0 0" "''read''" 128 ?w _ "plain_extern 0 0 0 0",
        OF _ _ _ _ _ r wf] c6
    by (simp add: mod_info_def init_fdstate_def MIN_FDTABLE_SZ_def access_defined_def)
  from e a b show ?thesis by blast
qed

text \<open>
  As the specification states it, the property fails for the standard descriptors: descriptor 0 has no entry in
  the initial table, and \<open>read\<close> on it is renamed to \<open>read_f\<close>, not \<open>read_?\<close>.
\<close>

theorem rename_untracked_stdin_counterexample:
  "fdtable (fdt init_world) ! 0 = NUL \<and>
   handle_rename_fd1 128 (plain_extern 0 0 0 0) (mod_info ''read'' 0 0 0 0) init_world
     = Inr (0, (mod_info ''read'' 0 0 0 0)\<lparr>symbol := Some ''read_f'', symbol_in_symmod := True\<rparr>,
            init_world\<lparr>fdt := init_fdstate\<lparr>fdtable := (fdtable init_fdstate)[0 := CHR ''f'']\<rparr>,
                       retmem := Some \<lparr>ret_sym = None, ret_errno = 0, u32_0 = 0,
                                       symmod = ''read_f''\<rparr>\<rparr>) \<and>
   ''read_f'' \<noteq> ''read_?''"
  by (simp add: handle_rename_fd1_def get_fdtype_def maybe_grow_fdtable_def snprintf_s_c_def
      mod_info_def plain_extern_def init_world_def init_fdstate_def MIN_FDTABLE_SZ_def
      STDIN_FILENO_def Let_def)

text \<open>
  C9. When \<open>__maybe_grow_fdtable\<close> grows the table from capacity \<open>N\<close> to \<open>M > N\<close>, every
  entry below \<open>N\<close> keeps its value and \<open>get_fdtype\<close> returns for it what it returned
  before; every slot from \<open>N\<close> up to \<open>M\<close> holds 0 and \<open>get_fdtype\<close> reads it as 0.
\<close>

theorem grow_keeps_entries:
  assumes "wf_fdstate s" "maybe_grow_fdtable ok fd s = Inr (r, s')"
    "fdtable_sz s < fdtable_sz s'"
  shows "wf_fdstate s' \<and>
     (\<forall>i. 0 \<le> i \<and> i < fdtable_sz s \<longrightarrow>
        fdtable s' ! nat i = fdtable s ! nat i \<and>
        (\<forall>c t. get_fdtype b i s = Inr (c, t) \<longrightarrow> (\<exists>t'. get_fdtype b i s' = Inr (c, t')))) \<and>
     (\<forall>i. fdtable_sz s \<le> i \<and> i < fdtable_sz s' \<longrightarrow>
        fdtable s' ! nat i = NUL \<and> get_fdtype b i s' = Inr (NUL, s'))"
proof -
  from assms have lt: "fdtable_sz s < fd" and s': "s' = grown fd s"
    by (auto simp: grow_wf split: if_splits)
  have wf': "wf_fdstate s'"
    using wf_grown[OF assms(1) lt] s' by simp
  have sz: "MIN_FDTABLE_SZ \<le> fdtable_sz s"
    using assms(1) by (simp add: wf_fdstate_def)
  have old: "fdtable s' ! nat i = fdtable s ! nat i" if "0 \<le> i" "i < fdtable_sz s" for i
    using grown_nth_old[OF assms(1), of "nat i" fd] that s' by simp
  have new: "fdtable s' ! nat i = NUL" if "fdtable_sz s \<le> i" "i < fdtable_sz s'" for i
    using grown_nth_new[OF assms(1), of "nat i" fd] that s' sz
    by (simp add: grown_sz MIN_FDTABLE_SZ_def)
  have getold: "\<exists>t'. get_fdtype b i s' = Inr (c, t')"
    if "0 \<le> i" "i < fdtable_sz s" "get_fdtype b i s = Inr (c, t)" for i c t
    using that old[OF that(1,2)] assms(3)
    by (auto simp: get_fdtype_wf[OF assms(1)] get_fdtype_wf[OF wf'] split: if_splits)
  have getnew: "get_fdtype b i s' = Inr (NUL, s')"
    if "fdtable_sz s \<le> i" "i < fdtable_sz s'" for i
    using that new[OF that] sz
    by (simp add: get_fdtype_wf[OF wf'] MIN_FDTABLE_SZ_def)
  show ?thesis
    using wf' old new getold getnew by blast
qed

text \<open>
  An instance: the initial table with an entry for descriptor 5 grows for 300.
\<close>

theorem grow_keeps_entries_witness:
  "wf_fdstate (init_fdstate\<lparr>fdtable := (fdtable init_fdstate)[5 := CHR ''S'']\<rparr>) \<and>
   maybe_grow_fdtable True 300 (init_fdstate\<lparr>fdtable := (fdtable init_fdstate)[5 := CHR ''S'']\<rparr>)
     = Inr (0, grown 300 (init_fdstate\<lparr>fdtable := (fdtable init_fdstate)[5 := CHR ''S'']\<rparr>)) \<and>
   fdtable_sz (init_fdstate\<lparr>fdtable := (fdtable init_fdstate)[5 := CHR ''S'']\<rparr>) = 128 \<and>
   fdtable_sz (grown 300 (init_fdstate\<lparr>fdtable := (fdtable init_fdstate)[5 := CHR ''S'']\<rparr>)) = 600 \<and>
   fdtable (grown 300 (init_fdstate\<lparr>fdtable := (fdtable init_fdstate)[5 := CHR ''S'']\<rparr>)) ! nat 5
     = CHR ''S'' \<and>
   get_fdtype False 400 (grown 300 (init_fdstate\<lparr>fdtable := (fdtable init_fdstate)[5 := CHR ''S'']\<rparr>))
     = Inr (NUL, grown 300 (init_fdstate\<lparr>fdtable := (fdtable init_fdstate)[5 := CHR ''S'']\<rparr>))"
proof -
  let ?s = "init_fdstate\<lparr>fdtable := (fdtable init_fdstate)[5 := CHR ''S'']\<rparr>"
  have h1: "wf_fdstate ?s"
    by (rule wf_update[OF wf_init_fdstate])
  have szs: "fdtable_sz ?s = 128"
    by (simp add: init_fdstate_def MIN_FDTABLE_SZ_def)
  have h2: "maybe_grow_fdtable True 300 ?s = Inr (0, grown 300 ?s)"
    by (simp add: grow_wf[OF h1] szs MIN_FDTABLE_SZ_def INT_MAX_def)
  have szg: "fdtable_sz (grown 300 ?s) = 600"
    by (simp add: grown_sz newsz_of_def MIN_FDTABLE_SZ_def)
  have h3: "fdtable_sz ?s < fdtable_sz (grown 300 ?s)"
    by (simp add: szs szg)
  note r = grow_keeps_entries[OF h1 h2 h3, of False]
  have old: "fdtable (grown 300 ?s) ! nat 5 = fdtable ?s ! nat 5"
    using r[THEN conjunct2, THEN conjunct1, rule_format, of 5] by (simp add: szs)
  have c1: "fdtable (grown 300 ?s) ! nat 5 = CHR ''S''"
    using old by (simp add: init_fdstate_def MIN_FDTABLE_SZ_def)
  have c2: "get_fdtype False 400 (grown 300 ?s) = Inr (NUL, grown 300 ?s)"
    using r[THEN conjunct2, THEN conjunct2, rule_format, of 400] by (simp add: szs szg)
  show ?thesis
    using h1 h2 szs szg c1 c2 by simp
qed

text \<open>
  C10. For a call context whose first register, read as an \<open>int\<close>, is negative,
  \<open>handle_dup\<close> returns 0 and leaves the whole state as it was: no call of the real
  function is among the events, the table and the slot of the channel are unchanged,
  and nothing of the outside is consulted.
\<close>

theorem handle_dup_negative_oldfd:
  assumes "sint (regs0 info) < 0"
  shows "handle_dup ext info w = Inr (0, w)"
  using assms by (simp add: handle_dup_def)

text \<open>
  An instance: \<open>dup(-1)\<close>.
\<close>

theorem handle_dup_negative_oldfd_witness:
  "sint (regs0 (special_info ''dup'' (- 1) 0 0 0)) < 0 \<and>
   handle_dup (plain_extern 3 0 0 0) (special_info ''dup'' (- 1) 0 0 0) init_world
     = Inr (0, init_world)"
proof -
  have h: "sint (regs0 (special_info ''dup'' (- 1) 0 0 0)) < 0"
    by (simp add: special_info_def)
  from h handle_dup_negative_oldfd[OF h, of "plain_extern 3 0 0 0" init_world]
  show ?thesis by (rule conjI)
qed

end
